theory Spec2Isabelle
  imports Complex_Main "HOL-Library.List_Lexorder" "HOL-Library.Char_ord"
begin

section \<open>CardPlan: the card-scoring rules\<close>

text \<open>
  A shallow embedding of the rule engine of CardPlan (\<open>domain/types\<close>, \<open>utils/dates\<close>,
  \<open>utils/money\<close> and \<open>domain/rules/*\<close>).

  Conventions of the embedding.
  \<^item> A TypeScript \<open>number\<close> that holds money, a rate or a score is a \<open>real\<close>: arithmetic on
    it is exact. A \<open>number\<close> that counts installments or days is an \<open>int\<close>. The fractions
    of an installment plan are computed in IEEE 754 double arithmetic, as the code
    computes them: their exact sum is the subject of a documented property.
  \<^item> A value that can be \<open>NaN\<close> or infinite is a \<open>number\<close>: the result of the one division
    whose divisor is not guarded, the division by \<open>card.totalLimit\<close>, and every value
    computed from a date, because a date string that is not a date turns into \<open>NaN\<close>.
    A count of days that can be \<open>NaN\<close> is an \<open>int option\<close>, \<open>None\<close> for \<open>NaN\<close>.
  \<^item> An optional field \<open>f?: T\<close> is a \<open>T option\<close>. The rules test optional fields by
    JavaScript truthiness (\<open>if (campaign.minAmount)\<close>): \<open>undefined\<close>, \<open>0\<close>, \<open>false\<close> and the
    empty string all fail the test. The tests are \<open>truthy\<close>, \<open>truthyI\<close>, \<open>truthyS\<close>, \<open>truthyB\<close>.
  \<^item> A date string is read by splitting it at \<open>-\<close> and converting the first three pieces
    to numbers. \<open>ISO y m d\<close> is the string \<open>yyyy-MM-dd\<close> with these three numbers;
    \<open>NotADate\<close> is any string of which one of the three pieces is not a number, such as
    free text, or the \<open>NaN-NaN-NaN\<close> that \<open>toISODate\<close> makes of an invalid \<open>Date\<close>.
  \<^item> The time zone of the runtime is a parameter \<open>tz\<close> of every function that reads the
    time value of a local \<open>Date\<close>.
  \<^item> The \<open>notes\<close> arrays and the \<open>explanation\<close> string are display text that no rule reads
    back. The notes of \<open>computeRiskPenalty\<close> are modelled; the other result records leave
    them out.
\<close>

subsection \<open>Domain types\<close>

text \<open>A JavaScript number that may be one of the non-finite values.\<close>

datatype number = Fin real | PosInf | NegInf | NaN

datatype ISODate = ISO int int int | NotADate

datatype InstallmentSupport = Num int | Flag bool

record Purchase =
  amount :: real
  category :: string
  installmentCount :: int
  date :: ISODate
  channel :: string
  merchant :: "string option"
  posFeePercent :: "real option"

record Card =
  cardId :: int
  name :: string
  totalLimit :: real
  availableLimit :: real
  statementDay :: int
  dueDay :: int
  cashbackPercent :: real
  pointRate :: real
  pointValue :: real
  installmentSupport :: InstallmentSupport
  utilization :: "real option"

record Campaign =
  name :: string
  category :: "string option"
  channel :: "string option"
  brand :: "string option"
  dateRange :: "(ISODate \<times> ISODate) option"
  minAmount :: "real option"
  capAmount :: "real option"
  extraCashbackPercent :: "real option"
  extraPointRate :: "real option"
  flatDiscount :: "real option"
  maxInstallments :: "int option"
  interestFreeMonths :: "int option"
  requiresEnrollment :: "bool option"
  enrolled :: "bool option"
  requiresCode :: "bool option"
  codeProvided :: "bool option"

text \<open>
  The result types of \<open>domain/types\<close>, and \<open>CardScoreData\<close>, the intermediate record
  of \<open>domain/rules/score\<close>. \<open>resultingUtilization\<close> and \<open>adjustedInstallments\<close> are
  always set by the rules. The cashflow score and the total score are computed from
  dates.
\<close>

record ScoreBreakdown =
  netValueTL :: real
  valueScore :: real
  cashflowScore :: number
  riskPenalty :: real
  usabilityScore :: real
  campaignMatchScore :: real

record ScoredCard =
  cardOf :: Card
  totalScore :: number
  breakdown :: ScoreBreakdown
  resultingUtilization :: number
  adjustedInstallments :: int

record CardScoreData =
  cardOf :: Card
  netValueTL :: real
  valueScore :: real
  cashflowScore :: number
  riskPenalty :: real
  usabilityScore :: real
  campaignMatchScore :: real
  adjustedInstallments :: int
  resultingUtilization :: number

subsection \<open>JavaScript truthiness and non-finite numbers\<close>

definition truthy :: "real option \<Rightarrow> bool" where
  "truthy x = (case x of None \<Rightarrow> False | Some v \<Rightarrow> v \<noteq> 0)"

definition truthyI :: "int option \<Rightarrow> bool" where
  "truthyI x = (case x of None \<Rightarrow> False | Some v \<Rightarrow> v \<noteq> 0)"

definition truthyS :: "string option \<Rightarrow> bool" where
  "truthyS x = (case x of None \<Rightarrow> False | Some s \<Rightarrow> s \<noteq> [])"

definition truthyB :: "bool option \<Rightarrow> bool" where
  "truthyB x = (case x of None \<Rightarrow> False | Some b \<Rightarrow> b)"

text \<open>The value read from a field after its truthiness test has passed.\<close>

definition valueOf :: "real option \<Rightarrow> real" where
  "valueOf x = (case x of None \<Rightarrow> 0 | Some v \<Rightarrow> v)"

definition valueOfI :: "int option \<Rightarrow> int" where
  "valueOfI x = (case x of None \<Rightarrow> 0 | Some v \<Rightarrow> v)"


text \<open>\<open>a / b\<close> of two finite numbers.\<close>

definition jsdiv :: "real \<Rightarrow> real \<Rightarrow> number" where
  "jsdiv a b =
     (if b \<noteq> 0 then Fin (a / b)
      else if 0 < a then PosInf
      else if a < 0 then NegInf
      else NaN)"

text \<open>\<open>x > k\<close> for a finite \<open>k\<close>: every comparison with \<open>NaN\<close> is false.\<close>

fun gt :: "number \<Rightarrow> real \<Rightarrow> bool" where
  "gt (Fin x) k = (k < x)"
| "gt PosInf k = True"
| "gt NegInf k = False"
| "gt NaN k = False"

text \<open>\<open>a - b\<close>, \<open>a + b\<close> and \<open>Math.abs\<close> on numbers that may be non-finite.\<close>

fun numSub :: "number \<Rightarrow> number \<Rightarrow> number" where
  "numSub (Fin a) (Fin b) = Fin (a - b)"
| "numSub NaN _ = NaN"
| "numSub _ NaN = NaN"
| "numSub PosInf PosInf = NaN"
| "numSub NegInf NegInf = NaN"
| "numSub PosInf _ = PosInf"
| "numSub NegInf _ = NegInf"
| "numSub (Fin a) PosInf = NegInf"
| "numSub (Fin a) NegInf = PosInf"

fun numPlus :: "number \<Rightarrow> number \<Rightarrow> number" where
  "numPlus (Fin a) (Fin b) = Fin (a + b)"
| "numPlus NaN _ = NaN"
| "numPlus _ NaN = NaN"
| "numPlus PosInf NegInf = NaN"
| "numPlus NegInf PosInf = NaN"
| "numPlus PosInf _ = PosInf"
| "numPlus NegInf _ = NegInf"
| "numPlus (Fin a) PosInf = PosInf"
| "numPlus (Fin a) NegInf = NegInf"

fun numAbs :: "number \<Rightarrow> number" where
  "numAbs (Fin x) = Fin \<bar>x\<bar>"
| "numAbs PosInf = PosInf"
| "numAbs NegInf = PosInf"
| "numAbs NaN = NaN"

text \<open>
  The product \<open>x * w\<close> and the quotient \<open>x / w\<close> of a number that may be non-finite and a
  finite one.
\<close>

fun numTimes :: "number \<Rightarrow> real \<Rightarrow> number" where
  "numTimes (Fin x) w = Fin (x * w)"
| "numTimes NaN w = NaN"
| "numTimes PosInf w = (if 0 < w then PosInf else if w < 0 then NegInf else NaN)"
| "numTimes NegInf w = (if 0 < w then NegInf else if w < 0 then PosInf else NaN)"

fun numOver :: "number \<Rightarrow> real \<Rightarrow> number" where
  "numOver (Fin x) w = jsdiv x w"
| "numOver NaN w = NaN"
| "numOver PosInf w = (if w < 0 then NegInf else PosInf)"
| "numOver NegInf w = (if w < 0 then PosInf else NegInf)"

text \<open>
  \<open>Math.min(x, k)\<close> and \<open>Math.max(k, x)\<close> for a finite \<open>k\<close>: both are \<open>NaN\<close> when \<open>x\<close> is.
\<close>

fun numMin :: "number \<Rightarrow> real \<Rightarrow> number" where
  "numMin (Fin x) k = Fin (min x k)"
| "numMin NaN k = NaN"
| "numMin PosInf k = Fin k"
| "numMin NegInf k = NegInf"

fun numMax :: "real \<Rightarrow> number \<Rightarrow> number" where
  "numMax k (Fin x) = Fin (max k x)"
| "numMax k NaN = NaN"
| "numMax k PosInf = PosInf"
| "numMax k NegInf = Fin k"

subsection \<open>\<open>utils/money\<close>\<close>

text \<open>\<open>Math.round\<close> rounds to the nearest integer, a half towards \<open>+\<infinity>\<close>.\<close>

definition mathRound :: "real \<Rightarrow> int" where
  "mathRound x = \<lfloor>x + 1 / 2\<rfloor>"

definition round2 :: "real \<Rightarrow> real" where
  "round2 n = real_of_int (mathRound (n * 100)) / 100"

definition clamp01 :: "real \<Rightarrow> real" where
  "clamp01 n = max 0 (min 1 n)"

definition minMaxNormalize :: "real \<Rightarrow> real \<Rightarrow> real \<Rightarrow> real" where
  "minMaxNormalize v mn mx =
     (if mx = mn then 0.5
      else let normalized = (v - mn) / (mx - mn) in clamp01 normalized)"

text \<open>\<open>round2\<close> and \<open>clamp01\<close> of a number that may be non-finite.\<close>

fun numRound2 :: "number \<Rightarrow> number" where
  "numRound2 (Fin x) = Fin (round2 x)"
| "numRound2 PosInf = PosInf"
| "numRound2 NegInf = NegInf"
| "numRound2 NaN = NaN"

definition numClamp01 :: "number \<Rightarrow> number" where
  "numClamp01 n = numMax 0 (numMin n 1)"

subsection \<open>IEEE 754 double arithmetic\<close>

text \<open>
  A double is a real number \<open>m * 2 ^ (e - 52)\<close> with an integer \<open>m\<close> of at most 53 bits. \<open>dbl x\<close> is
  the double nearest to \<open>x\<close>, a tie going to the even \<open>m\<close>; the exponent is not bounded, so
  there is no overflow and there are no subnormal numbers. The four operations round
  the exact result. \<open>Math.round\<close> is exact on a double.
\<close>

definition roundTiesToEven :: "real \<Rightarrow> int" where
  "roundTiesToEven x =
     (let f = \<lfloor>x\<rfloor>; r = x - real_of_int f
      in if r < 1 / 2 then f
         else if r > 1 / 2 then f + 1
         else if even f then f else f + 1)"

definition dbl :: "real \<Rightarrow> real" where
  "dbl x =
     (if x = 0 then 0
      else let e = \<lfloor>log 2 \<bar>x\<bar>\<rfloor>
           in real_of_int (roundTiesToEven (x * 2 powr (52 - real_of_int e)))
                * 2 powr (real_of_int e - 52))"

definition fadd :: "real \<Rightarrow> real \<Rightarrow> real" where
  "fadd a b = dbl (a + b)"

definition fsub :: "real \<Rightarrow> real \<Rightarrow> real" where
  "fsub a b = dbl (a - b)"

definition fmul :: "real \<Rightarrow> real \<Rightarrow> real" where
  "fmul a b = dbl (a * b)"

definition fdiv :: "real \<Rightarrow> real \<Rightarrow> real" where
  "fdiv a b = dbl (a / b)"

text \<open>\<open>round2\<close> of \<open>utils/money\<close> on doubles.\<close>

definition round2d :: "real \<Rightarrow> real" where
  "round2d n = fdiv (real_of_int (mathRound (fmul n 100))) 100"

subsection \<open>\<open>utils/dates\<close>\<close>

text \<open>
  A valid JavaScript \<open>Date\<close> at local midnight is the calendar day it denotes; the three
  fields are what \<open>getFullYear\<close>, \<open>getMonth\<close> (0 to 11) and \<open>getDate\<close> return. An invalid
  \<open>Date\<close>, whose time value and fields are \<open>NaN\<close>, is \<open>None\<close>. The model follows the
  proleptic Gregorian calendar for every year; the constructor's remapping of the years
  0 to 99 and the text form of years that do not have four digits are not modelled.
\<close>

record JSDate =
  getFullYear :: int
  getMonth :: int
  getDate :: int

definition leapYear :: "int \<Rightarrow> bool" where
  "leapYear y = ((y mod 4 = 0 \<and> y mod 100 \<noteq> 0) \<or> y mod 400 = 0)"

definition daysInMonth :: "int \<Rightarrow> int \<Rightarrow> int" where
  "daysInMonth y m =
     (if m = 1 then (if leapYear y then 29 else 28)
      else if m = 3 \<or> m = 5 \<or> m = 8 \<or> m = 10 then 30
      else 31)"

text \<open>
  Day overflow of \<open>new Date(year, monthIndex, day)\<close>: a day below 1 or beyond the end of
  the month moves into the neighbouring months.
\<close>

function normDay :: "int \<Rightarrow> int \<Rightarrow> int \<Rightarrow> JSDate" where
  "normDay y m d =
     (if d < 1 then
        (let y' = (if m = 0 then y - 1 else y);
             m' = (if m = 0 then 11 else m - 1)
         in normDay y' m' (d + daysInMonth y' m'))
      else if d > daysInMonth y m then
        (let y' = (if m = 11 then y + 1 else y);
             m' = (if m = 11 then 0 else m + 1)
         in normDay y' m' (d - daysInMonth y m))
      else \<lparr>getFullYear = y, getMonth = m, getDate = d\<rparr>)"
  by pat_completeness auto
termination
proof (relation "measure (\<lambda>(y, m, d). nat (if d < 1 then 100 - d else d))")
  show "wf (measure (\<lambda>(y, m, d). nat (if d < 1 then 100 - d else d)))"
    by simp
next
  fix y m d y' m' :: int
  assume "d < 1"
    and "y' = (if m = 0 then y - 1 else y)"
    and "m' = (if m = 0 then 11 else m - 1)"
  then show "((y', m', d + daysInMonth y' m'), (y, m, d))
        \<in> measure (\<lambda>(y, m, d). nat (if d < 1 then 100 - d else d))"
    by (auto simp: daysInMonth_def)
next
  fix y m d y' m' :: int
  assume "\<not> d < 1" and "daysInMonth y m < d"
  then show "((y', m', d - daysInMonth y m), (y, m, d))
        \<in> measure (\<lambda>(y, m, d). nat (if d < 1 then 100 - d else d))"
    by (auto simp: daysInMonth_def)
qed

declare normDay.simps [simp del]

text \<open>\<open>new Date(year, monthIndex, day)\<close>: the month index is reduced modulo 12 first.\<close>

definition newDate :: "int \<Rightarrow> int \<Rightarrow> int \<Rightarrow> JSDate" where
  "newDate y m d = normDay (y + m div 12) (m mod 12) d"

text \<open>The number of days from the start of the calendar to a date.\<close>

definition daysBeforeYear :: "int \<Rightarrow> int" where
  "daysBeforeYear y = 365 * y + (y - 1) div 4 - (y - 1) div 100 + (y - 1) div 400"

definition daysBeforeMonth :: "int \<Rightarrow> int \<Rightarrow> int" where
  "daysBeforeMonth y m = (\<Sum>k\<leftarrow>[0..m - 1]. daysInMonth y k)"

definition dayNumber :: "JSDate \<Rightarrow> int" where
  "dayNumber dt =
     daysBeforeYear (getFullYear dt) + daysBeforeMonth (getFullYear dt) (getMonth dt)
       + getDate dt"

text \<open>
  The time zone of the runtime: \<open>tz k\<close> is the offset of local time from UTC, in
  milliseconds, that is in force at local midnight of the day with number \<open>k\<close>. A zone
  without daylight saving time is a constant. \<open>getTime\<close> of a \<open>Date\<close> at local midnight is
  its time value in milliseconds, counted from the start of the calendar instead of
  from 1970.
\<close>

type_synonym TimeZone = "int \<Rightarrow> int"

definition getTime :: "TimeZone \<Rightarrow> JSDate \<Rightarrow> int" where
  "getTime tz dt = dayNumber dt * (24 * 60 * 60 * 1000) - tz (dayNumber dt)"

text \<open>
  The local date of the time value \<open>t\<close>, for a \<open>t\<close> that is not before local midnight of
  the day \<open>dt\<close> and before local midnight of the second day after it: the date is \<open>dt\<close> until
  local midnight of the following day.
\<close>

definition dateOfTime :: "TimeZone \<Rightarrow> JSDate \<Rightarrow> int \<Rightarrow> JSDate" where
  "dateOfTime tz dt t =
     (let following = newDate (getFullYear dt) (getMonth dt) (getDate dt + 1)
      in if t < getTime tz following then dt else following)"

text \<open>
  Two \<open>Date\<close> objects compare by their time values, and every comparison with an invalid
  \<open>Date\<close> is false. Local midnights are in the order of their calendar days.
\<close>

definition dateLess :: "JSDate option \<Rightarrow> JSDate option \<Rightarrow> bool" where
  "dateLess a b =
     (case (a, b) of (Some x, Some y) \<Rightarrow> dayNumber x < dayNumber y | _ \<Rightarrow> False)"

definition dateLessEq :: "JSDate option \<Rightarrow> JSDate option \<Rightarrow> bool" where
  "dateLessEq a b =
     (case (a, b) of (Some x, Some y) \<Rightarrow> dayNumber x \<le> dayNumber y | _ \<Rightarrow> False)"

text \<open>The string made of the \<open>NaN\<close> fields of an invalid \<open>Date\<close> is \<open>NaN-NaN-NaN\<close>.\<close>

definition toISODate :: "JSDate option \<Rightarrow> ISODate" where
  "toISODate d =
     (case d of
        None \<Rightarrow> NotADate
      | Some dt \<Rightarrow> ISO (getFullYear dt) (getMonth dt + 1) (getDate dt))"

fun parseISODate :: "ISODate \<Rightarrow> JSDate option" where
  "parseISODate (ISO year month day) = Some (newDate year (month - 1) day)"
| "parseISODate NotADate = None"

text \<open>The result is \<open>NaN\<close>, written \<open>None\<close>, when one of the two dates is invalid.\<close>

definition daysBetween :: "TimeZone \<Rightarrow> ISODate \<Rightarrow> ISODate \<Rightarrow> int option" where
  "daysBetween tz aISO bISO =
     (case (parseISODate aISO, parseISODate bISO) of
        (Some dateA, Some dateB) \<Rightarrow>
          (let diffMs = \<bar>getTime tz dateB - getTime tz dateA\<bar>
           in Some (diffMs div (1000 * 60 * 60 * 24)))
      | _ \<Rightarrow> None)"

text \<open>
  With an invalid base date, \<open>currentDay <= clampedDay\<close> is false and the \<open>Date\<close> built
  from the \<open>NaN\<close> fields is invalid.
\<close>

definition nextDayOfMonth :: "ISODate \<Rightarrow> int \<Rightarrow> ISODate" where
  "nextDayOfMonth baseISO day =
     (let clampedDay = max 1 (min 28 day)
      in case parseISODate baseISO of
           None \<Rightarrow> toISODate None
         | Some baseDate \<Rightarrow>
             (let currentDay = getDate baseDate
              in if currentDay \<le> clampedDay
                 then toISODate (Some (newDate (getFullYear baseDate) (getMonth baseDate)
                                         clampedDay))
                 else toISODate (Some (newDate (getFullYear baseDate) (getMonth baseDate + 1)
                                         clampedDay))))"

definition addMonths :: "ISODate \<Rightarrow> int \<Rightarrow> ISODate" where
  "addMonths isoDate months =
     (case parseISODate isoDate of
        None \<Rightarrow> toISODate None
      | Some dt \<Rightarrow>
          (let currentDay = min 28 (getDate dt)
           in toISODate (Some (newDate (getFullYear dt) (getMonth dt + months) currentDay))))"

definition nextStatementDate :: "ISODate \<Rightarrow> int \<Rightarrow> ISODate" where
  "nextStatementDate purchaseISO sDay = nextDayOfMonth purchaseISO sDay"

text \<open>
  \<open>new Date(statementDateObj.getTime() + 24 * 60 * 60 * 1000)\<close> is the instant 24 hours
  after local midnight of the statement date; \<open>toISODate\<close> reads its local date.
\<close>

definition nextDueDate :: "TimeZone \<Rightarrow> ISODate \<Rightarrow> int \<Rightarrow> int \<Rightarrow> ISODate" where
  "nextDueDate tz purchaseISO sDay dDay =
     (let statementDate = nextStatementDate purchaseISO sDay;
          statementDateObj = parseISODate statementDate;
          dayAfterStatement =
            toISODate
              (case statementDateObj of
                 None \<Rightarrow> None
               | Some st \<Rightarrow> Some (dateOfTime tz st (getTime tz st + 24 * 60 * 60 * 1000)))
      in nextDayOfMonth dayAfterStatement dDay)"

subsection \<open>\<open>domain/rules/compatibility\<close>\<close>

record CompatibilityResult =
  compatible :: bool
  adjustedInstallments :: int
  usabilityScore :: real

text \<open>The loop of \<open>getCampaignInstallmentBoost\<close>; its \<open>purchase\<close> argument is never read.\<close>

definition getCampaignInstallmentBoost :: "Campaign list \<Rightarrow> int" where
  "getCampaignInstallmentBoost campaigns =
     foldl (\<lambda>maxBoost campaign.
              case maxInstallments campaign of
                None \<Rightarrow> maxBoost
              | Some m \<Rightarrow> (if m \<noteq> 0 \<and> m > maxBoost then m else maxBoost))
           0 campaigns"

definition getMaxAllowedInstallments :: "Card \<Rightarrow> Campaign list \<Rightarrow> int" where
  "getMaxAllowedInstallments crd campaigns =
     (let maxInstallments0 =
            (case installmentSupport crd of
               Num n \<Rightarrow> n
             | Flag b \<Rightarrow> (if b then 24 else 0));
          campaignBoost = getCampaignInstallmentBoost campaigns
      in if campaignBoost > maxInstallments0 then campaignBoost else maxInstallments0)"

definition checkCompatibility :: "Purchase \<Rightarrow> Card \<Rightarrow> Campaign list \<Rightarrow> CompatibilityResult" where
  "checkCompatibility purchase crd campaigns =
     (if availableLimit crd < amount purchase
      then \<lparr>compatible = False,
            adjustedInstallments = installmentCount purchase,
            usabilityScore = 0\<rparr>
      else
        let maxAllowedInstallments = getMaxAllowedInstallments crd campaigns;
            (adjusted, usability) =
               (if installmentCount purchase > maxAllowedInstallments
                then (max 1 maxAllowedInstallments, 0.4)
                else if installmentCount purchase > 1 \<and> maxAllowedInstallments = 0
                then (1, 0.4)
                else (installmentCount purchase, 1));
            utilizationAfterPurchase =
               jsdiv (totalLimit crd - (availableLimit crd - amount purchase)) (totalLimit crd);
            usability' =
               (if gt utilizationAfterPurchase 0.9 then min usability 0.6 else usability)
        in \<lparr>compatible = True,
            adjustedInstallments = adjusted,
            usabilityScore = usability'\<rparr>)"

subsection \<open>\<open>domain/rules/value\<close>\<close>

record ValueResult =
  rewardTL :: real
  costTL :: real
  netValueTL :: real

text \<open>
  \<open>purchaseDate < startDate || purchaseDate > endDate\<close> is false when one of the dates is
  invalid: the date range then excludes nothing.
\<close>

definition isCampaignApplicable :: "Purchase \<Rightarrow> Campaign \<Rightarrow> bool" where
  "isCampaignApplicable purchase campaign =
     (if (case dateRange campaign of
            None \<Rightarrow> False
          | Some (start, end) \<Rightarrow>
              (let purchaseDate = parseISODate (date purchase);
                   startDate = parseISODate start;
                   endDate = parseISODate end
               in dateLess purchaseDate startDate \<or> dateLess endDate purchaseDate))
      then False
      else if truthy (minAmount campaign) \<and> amount purchase < valueOf (minAmount campaign)
      then False
      else if truthyS (channel campaign) \<and> channel campaign \<noteq> Some ''any''
              \<and> channel campaign \<noteq> Some (Purchase.channel purchase)
      then False
      else if truthyS (category campaign) \<and> category campaign \<noteq> Some ''general''
              \<and> category campaign \<noteq> Some (Purchase.category purchase)
      then False
      else if truthyS (brand campaign) \<and> brand campaign \<noteq> Some ''general''
              \<and> brand campaign \<noteq> merchant purchase
      then False
      else if truthyB (requiresEnrollment campaign) \<and> \<not> truthyB (enrolled campaign)
      then False
      else if truthyB (requiresCode campaign) \<and> \<not> truthyB (codeProvided campaign)
      then False
      else True)"

text \<open>The body of the loop over the applicable campaigns: the benefit of one campaign.\<close>

definition campaignBenefit :: "Purchase \<Rightarrow> Card \<Rightarrow> Campaign \<Rightarrow> real" where
  "campaignBenefit purchase crd campaign =
     (let b0 = 0;
          b1 = (if truthy (extraCashbackPercent campaign)
                then b0 + amount purchase * valueOf (extraCashbackPercent campaign) else b0);
          b2 = (if truthy (extraPointRate campaign)
                then b1 + amount purchase * valueOf (extraPointRate campaign) * pointValue crd
                else b1);
          b3 = (if truthy (flatDiscount campaign)
                then b2 + valueOf (flatDiscount campaign) else b2)
      in b3)"

text \<open>
  The search for the most restrictive cap. \<open>minCap\<close> starts at \<open>Infinity\<close>, written
  \<open>None\<close>; every finite cap is below it.
\<close>

definition findMinCap :: "Campaign list \<Rightarrow> real option" where
  "findMinCap applicableCampaigns =
     foldl (\<lambda>minCap campaign.
              if truthy (capAmount campaign)
                 \<and> (case minCap of None \<Rightarrow> True | Some m \<Rightarrow> valueOf (capAmount campaign) < m)
              then Some (valueOf (capAmount campaign)) else minCap)
           None applicableCampaigns"

definition computeValueTL :: "Purchase \<Rightarrow> Card \<Rightarrow> Campaign list \<Rightarrow> ValueResult" where
  "computeValueTL purchase crd campaigns =
     (let baseCashback = amount purchase * cashbackPercent crd;
          rewards1 = (if baseCashback > 0 then 0 + baseCashback else 0);
          basePointsEarned = amount purchase * pointRate crd;
          basePointsValue = basePointsEarned * pointValue crd;
          rewards2 = (if basePointsValue > 0 then rewards1 + basePointsValue else rewards1);
          applicableCampaigns = filter (isCampaignApplicable purchase) campaigns;
          totalCampaignBenefit =
            foldl (\<lambda>total campaign. total + campaignBenefit purchase crd campaign)
                  0 applicableCampaigns;
          rewards3 =
            (if totalCampaignBenefit > 0 then
               (let minCap = findMinCap applicableCampaigns;
                    cappedBenefit =
                      (case minCap of
                         None \<Rightarrow> totalCampaignBenefit
                       | Some m \<Rightarrow> (if totalCampaignBenefit > m then m else totalCampaignBenefit))
                in rewards2 + cappedBenefit)
             else rewards2);
          posFee = amount purchase * (case posFeePercent purchase of None \<Rightarrow> 0 | Some f \<Rightarrow> f);
          totalCosts = (if posFee > 0 then 0 + posFee else 0)
      in \<lparr>rewardTL = round2 rewards3,
          costTL = round2 totalCosts,
          netValueTL = round2 (rewards3 - totalCosts)\<rparr>)"

subsection \<open>\<open>domain/rules/campaignMatch\<close>\<close>

record EffectiveCampaignBenefits =
  extraCashbackPercent :: real
  extraPointRate :: real
  flatDiscount :: real
  maxInstallmentsBoost :: "int option"
  interestFreeMonths :: "int option"

record CampaignRequirements =
  enrollmentOk :: bool
  codeOk :: bool

record CampaignEvaluationResult =
  effective :: EffectiveCampaignBenefits
  matchScore :: real
  requirementsOk :: CampaignRequirements

record MatchResult =
  matches :: bool
  score :: real

text \<open>
  \<open>evaluateCampaignMatch\<close> threads the two counters \<open>matchCount\<close> and \<open>totalCriteria\<close>
  through five checks; each check is a step on the pair of counters.
\<close>

definition criterion :: "bool \<Rightarrow> bool \<Rightarrow> int \<times> int \<Rightarrow> int \<times> int" where
  "criterion present matched counters =
     (case counters of (matchCount, totalCriteria) \<Rightarrow>
        if present
        then (if matched then (matchCount + 1, totalCriteria + 1)
              else (matchCount, totalCriteria + 1))
        else (matchCount, totalCriteria))"

definition evaluateCampaignMatch :: "Purchase \<Rightarrow> Campaign \<Rightarrow> MatchResult" where
  "evaluateCampaignMatch purchase campaign =
     (let c0 = (0, 0);
          c1 = criterion (dateRange campaign \<noteq> None)
                 (case dateRange campaign of
                    None \<Rightarrow> False
                  | Some (start, end) \<Rightarrow>
                      (let purchaseDate = parseISODate (date purchase);
                           startDate = parseISODate start;
                           endDate = parseISODate end
                       in dateLessEq startDate purchaseDate
                          \<and> dateLessEq purchaseDate endDate))
                 c0;
          c2 = criterion (truthyS (Campaign.channel campaign)
                            \<and> Campaign.channel campaign \<noteq> Some ''any'')
                 (Campaign.channel campaign = Some (Purchase.channel purchase)) c1;
          c3 = criterion (truthyS (Campaign.category campaign)
                            \<and> Campaign.category campaign \<noteq> Some ''general'')
                 (Campaign.category campaign = Some (Purchase.category purchase)) c2;
          c4 = criterion (truthyS (brand campaign) \<and> brand campaign \<noteq> Some ''general'')
                 (brand campaign = merchant purchase) c3;
          c5 = criterion (truthy (minAmount campaign))
                 (amount purchase \<ge> valueOf (minAmount campaign)) c4;
          matchCount = fst c5;
          totalCriteria = snd c5;
          sc = (if totalCriteria = 0 then 1
                else if matchCount = totalCriteria then 1
                else if matchCount > 0
                then max 0.3 (real_of_int matchCount / real_of_int totalCriteria)
                else 0)
      in \<lparr>matches = (sc > 0), score = sc\<rparr>)"

text \<open>The mutable locals of the loop of \<open>evaluateCampaigns\<close>.\<close>

record EvalState =
  totalMatchScore :: real
  applicableCampaignCount :: int
  effectiveAcc :: EffectiveCampaignBenefits
  hasEnrollmentRequirement :: bool
  allEnrollmentsSatisfied :: bool
  hasCodeRequirement :: bool
  allCodesSatisfied :: bool

definition aggregateBenefits :: "Campaign \<Rightarrow> EffectiveCampaignBenefits \<Rightarrow> EffectiveCampaignBenefits" where
  "aggregateBenefits campaign e =
     (let e1 = (if truthy (Campaign.extraCashbackPercent campaign)
                then e\<lparr>extraCashbackPercent :=
                         extraCashbackPercent e + valueOf (Campaign.extraCashbackPercent campaign)\<rparr>
                else e);
          e2 = (if truthy (Campaign.extraPointRate campaign)
                then e1\<lparr>extraPointRate :=
                          extraPointRate e1 + valueOf (Campaign.extraPointRate campaign)\<rparr>
                else e1);
          e3 = (if truthy (Campaign.flatDiscount campaign)
                   \<and> valueOf (Campaign.flatDiscount campaign) > flatDiscount e2
                then e2\<lparr>flatDiscount := valueOf (Campaign.flatDiscount campaign)\<rparr>
                else e2);
          e4 = (if truthyI (maxInstallments campaign)
                then e3\<lparr>maxInstallmentsBoost :=
                          Some (max (case maxInstallmentsBoost e3 of None \<Rightarrow> 0 | Some b \<Rightarrow> b)
                                    (valueOfI (maxInstallments campaign)))\<rparr>
                else e3);
          e5 = (if truthyI (Campaign.interestFreeMonths campaign)
                then e4\<lparr>interestFreeMonths :=
                          Some (max (case interestFreeMonths e4 of None \<Rightarrow> 0 | Some b \<Rightarrow> b)
                                    (valueOfI (Campaign.interestFreeMonths campaign)))\<rparr>
                else e4)
      in e5)"

definition evalStep :: "Purchase \<Rightarrow> EvalState \<Rightarrow> Campaign \<Rightarrow> EvalState" where
  "evalStep purchase st campaign =
     (let matchResult = evaluateCampaignMatch purchase campaign
      in if matches matchResult then
           (let st1 = st\<lparr>applicableCampaignCount := applicableCampaignCount st + 1,
                          totalMatchScore := totalMatchScore st + score matchResult\<rparr>;
                st2 = (if truthyB (requiresEnrollment campaign)
                       then (let s = st1\<lparr>hasEnrollmentRequirement := True\<rparr>
                             in if \<not> truthyB (enrolled campaign)
                                then s\<lparr>allEnrollmentsSatisfied := False\<rparr> else s)
                       else st1);
                st3 = (if truthyB (requiresCode campaign)
                       then (let s = st2\<lparr>hasCodeRequirement := True\<rparr>
                             in if \<not> truthyB (codeProvided campaign)
                                then s\<lparr>allCodesSatisfied := False\<rparr> else s)
                       else st2);
                requirementsMet =
                  ((\<not> truthyB (requiresEnrollment campaign) \<or> truthyB (enrolled campaign))
                   \<and> (\<not> truthyB (requiresCode campaign) \<or> truthyB (codeProvided campaign)))
            in if requirementsMet
               then st3\<lparr>effectiveAcc := aggregateBenefits campaign (effectiveAcc st3)\<rparr>
               else st3)
         else st)"

definition evaluateCampaigns :: "Purchase \<Rightarrow> Card \<Rightarrow> Campaign list \<Rightarrow> CampaignEvaluationResult" where
  "evaluateCampaigns purchase crd campaigns =
     (let st0 = \<lparr>totalMatchScore = 0,
                 applicableCampaignCount = 0,
                 effectiveAcc = \<lparr>extraCashbackPercent = 0, extraPointRate = 0,
                                 flatDiscount = 0, maxInstallmentsBoost = None,
                                 interestFreeMonths = None\<rparr>,
                 hasEnrollmentRequirement = False,
                 allEnrollmentsSatisfied = True,
                 hasCodeRequirement = False,
                 allCodesSatisfied = True\<rparr>;
          st = foldl (evalStep purchase) st0 campaigns;
          ms = (if applicableCampaignCount st > 0
                then clamp01 (totalMatchScore st / real_of_int (applicableCampaignCount st))
                else 0)
      in \<lparr>effective = effectiveAcc st,
          matchScore = ms,
          requirementsOk =
            \<lparr>enrollmentOk = (\<not> hasEnrollmentRequirement st \<or> allEnrollmentsSatisfied st),
             codeOk = (\<not> hasCodeRequirement st \<or> allCodesSatisfied st)\<rparr>\<rparr>)"

subsection \<open>\<open>domain/rules/riskPenalty\<close>\<close>

record RequiredFlags =
  enrollmentOk :: "bool option"
  codeOk :: "bool option"

text \<open>The notes of \<open>computeRiskPenalty\<close>, each with the values its text shows.\<close>

datatype RiskNote =
    InsufficientLimit real real
  | HighUtilization number
  | ModerateUtilization number
  | LowUtilization number
  | CloseToDueDate int
  | UnableToCalculateDueDate
  | InstallmentsReduced int int
  | EnrollmentNotMet
  | CodeNotMet
  | PenaltyCapped real

record RiskPenaltyResult =
  penalty :: real
  riskNotes :: "RiskNote list"

text \<open>
  The two calls in the \<open>try\<close> block of the third check. An exception would be \<open>Inl\<close>.
  \<open>nextDueDate\<close> and \<open>daysBetween\<close> return on every date string, because a string that
  is not a date becomes an invalid \<open>Date\<close> and then \<open>NaN\<close>; so the block always returns.
\<close>

definition tryDaysUntilDue :: "TimeZone \<Rightarrow> Card \<Rightarrow> Purchase \<Rightarrow> unit + int option" where
  "tryDaysUntilDue tz crd purchase =
     (let nextDueDateISO = nextDueDate tz (date purchase) (statementDay crd) (dueDay crd);
          daysUntilDue = daysBetween tz (date purchase) nextDueDateISO
      in Inr daysUntilDue)"

text \<open>
  The four fields of \<open>RiskPenaltyParams\<close> are the four arguments after the time zone.
  \<open>totalPenalty\<close> and \<open>notes\<close> (the field \<open>riskNotes\<close> of the result) are threaded as a
  pair through the five checks in the order of the source; the \<open>catch\<close> clause of the
  third check is the \<open>Inl\<close> branch, and \<open>daysUntilDue <= 3\<close> is false for \<open>NaN\<close>. The local
  \<open>currentUtilization\<close> is never read.
\<close>

definition computeRiskPenalty ::
  "TimeZone \<Rightarrow> Card \<Rightarrow> Purchase \<Rightarrow> int \<Rightarrow> RequiredFlags option \<Rightarrow> RiskPenaltyResult" where
  "computeRiskPenalty tz crd purchase adjusted requiredFlags =
     (let s0 = (0 :: real, [] :: RiskNote list);
          s1 = (if availableLimit crd < amount purchase
                then (fst s0 + 0.6,
                      snd s0 @ [InsufficientLimit (round2 (amount purchase))
                                                  (round2 (availableLimit crd))])
                else s0);
          postTransactionUtilization =
            jsdiv (totalLimit crd - (availableLimit crd - amount purchase)) (totalLimit crd);
          percent = numRound2 (numTimes postTransactionUtilization 100);
          s2 = (if gt postTransactionUtilization 0.8
                then (fst s1 + 0.15, snd s1 @ [HighUtilization percent])
                else if gt postTransactionUtilization 0.5
                then (fst s1 + 0.10, snd s1 @ [ModerateUtilization percent])
                else if gt postTransactionUtilization 0.3
                then (fst s1 + 0.05, snd s1 @ [LowUtilization percent])
                else s1);
          s3 = (case tryDaysUntilDue tz crd purchase of
                  Inr daysUntilDue \<Rightarrow>
                    (case daysUntilDue of
                       None \<Rightarrow> s2
                     | Some days \<Rightarrow>
                         if days \<le> 3
                         then (fst s2 + 0.1, snd s2 @ [CloseToDueDate days])
                         else s2)
                | Inl error \<Rightarrow> (fst s2, snd s2 @ [UnableToCalculateDueDate]));
          s4 = (if adjusted < installmentCount purchase
                then (fst s3 + 0.2,
                      snd s3 @ [InstallmentsReduced (installmentCount purchase) adjusted])
                else s3);
          s5 = (case requiredFlags of
                  None \<Rightarrow> s4
                | Some flags \<Rightarrow>
                    (let u = (if enrollmentOk flags = Some False
                              then (fst s4 + 0.15, snd s4 @ [EnrollmentNotMet]) else s4)
                     in if codeOk flags = Some False
                        then (fst u + 0.15, snd u @ [CodeNotMet]) else u));
          totalPenalty = fst s5;
          clampedPenalty = clamp01 totalPenalty;
          allNotes = (if totalPenalty > 1
                      then snd s5 @ [PenaltyCapped (round2 (totalPenalty * 100))]
                      else snd s5)
      in \<lparr>penalty = clampedPenalty, riskNotes = allNotes\<rparr>)"

subsection \<open>\<open>domain/rules/cashflow\<close>\<close>

text \<open>The \<open>amount\<close> of an entry is a double; \<open>daysFromPurchase\<close> can be \<open>NaN\<close>.\<close>

record PaymentPlan =
  dueISO :: ISODate
  amount :: real
  daysFromPurchase :: "int option"

text \<open>
  \<open>new Date(iso)\<close> reads the string as a date-only ISO form, which denotes midnight UTC:
  the result is the day number, the same in every time zone. A month outside 1 to 12 or
  a day outside 1 to 31 is not of that form and gives an invalid \<open>Date\<close>; a day beyond
  the end of its month runs over into the next month, as the V8 engine reads it.
\<close>

definition newDateUTC :: "ISODate \<Rightarrow> int option" where
  "newDateUTC isoDate =
     (case isoDate of
        NotADate \<Rightarrow> None
      | ISO y m d \<Rightarrow>
          if 1 \<le> m \<and> m \<le> 12 \<and> 1 \<le> d \<and> d \<le> 31
          then Some (dayNumber (newDate y (m - 1) d))
          else None)"

text \<open>
  The difference of two midnights UTC, divided by the length of a day, is a whole number
  of days.
\<close>

definition calculateDaysFromPurchase :: "ISODate \<Rightarrow> ISODate \<Rightarrow> int option" where
  "calculateDaysFromPurchase purchaseISO due =
     (case (newDateUTC purchaseISO, newDateUTC due) of
        (Some purchaseDate, Some dueDate) \<Rightarrow>
          (let diffDays = dueDate - purchaseDate in Some (max 0 diffDays))
      | _ \<Rightarrow> None)"

text \<open>
  The amounts are computed in double arithmetic: \<open>1.0 / installments\<close>, the product and
  the difference round their results, and \<open>round2\<close> is \<open>round2d\<close>.
\<close>

definition buildInstallmentPlan ::
  "TimeZone \<Rightarrow> ISODate \<Rightarrow> int \<Rightarrow> int \<Rightarrow> int \<Rightarrow> PaymentPlan list" where
  "buildInstallmentPlan tz purchaseISO installments sDay dDay =
     (if installments \<le> 1 then
        (let firstDueDate = nextDueDate tz purchaseISO sDay dDay
         in [\<lparr>dueISO = firstDueDate,
               amount = 1,
               daysFromPurchase = calculateDaysFromPurchase purchaseISO firstDueDate\<rparr>])
      else
        (let installmentAmount = round2d (fdiv 1 (real_of_int installments));
             firstDueDate = nextDueDate tz purchaseISO sDay dDay
         in map (\<lambda>i.
                   let dueDate = (if i = 0 then firstDueDate else addMonths firstDueDate i)
                   in \<lparr>dueISO = dueDate,
                       amount =
                         (if i = installments - 1
                          then round2d (fsub 1 (fmul installmentAmount
                                                    (real_of_int (installments - 1))))
                          else installmentAmount),
                       daysFromPurchase = calculateDaysFromPurchase purchaseISO dueDate\<rparr>)
                [0..installments - 1]))"

text \<open>
  Every entry of a plan carries an \<open>amount\<close>, so the weight of an entry is its amount;
  the equal-weight fallback is for callers that pass bare \<open>daysFromPurchase\<close> objects.
  \<open>numOfDays\<close> is the number a count of days stands for.
\<close>

definition numOfDays :: "int option \<Rightarrow> number" where
  "numOfDays days = (case days of None \<Rightarrow> NaN | Some n \<Rightarrow> Fin (real_of_int n))"

definition cashflowScore :: "PaymentPlan list \<Rightarrow> number" where
  "cashflowScore plan =
     (if length plan = 0 then Fin 0
      else
        (let (totalDays, totalWeight) =
               foldl (\<lambda>(totalDays, totalWeight) payment.
                        (numPlus totalDays
                           (numTimes (numOfDays (daysFromPurchase payment)) (amount payment)),
                         totalWeight + amount payment))
                     (Fin 0, 0) plan;
             averageDays = (if totalWeight > 0 then numOver totalDays totalWeight else Fin 0);
             normalizedScore = numOver (numMin averageDays 60) 60
         in numClamp01 normalizedScore))"

subsection \<open>\<open>domain/rules/score\<close>\<close>

record ScoreWeights =
  valueWeight :: real
  cashflowWeight :: real
  riskWeight :: real
  usabilityWeight :: real
  campaignWeight :: real

definition DEFAULT_WEIGHTS :: ScoreWeights where
  "DEFAULT_WEIGHTS =
     \<lparr>valueWeight = 0.45, cashflowWeight = 0.25, riskWeight = 0.20,
      usabilityWeight = 0.05, campaignWeight = 0.05\<rparr>"

text \<open>\<open>Partial<ScoreWeights>\<close>: any subset of the five weights.\<close>

record PartialScoreWeights =
  valueOpt :: "real option"
  cashflowOpt :: "real option"
  riskOpt :: "real option"
  usabilityOpt :: "real option"
  campaignOpt :: "real option"

record ScoringOptions =
  campaignsByCardId :: "(int \<rightharpoonup> Campaign list) option"
  weights :: "PartialScoreWeights option"

text \<open>\<open>{ ...DEFAULT_WEIGHTS, ...customWeights }\<close>: a weight that is given replaces the default.\<close>

definition mergeWeights :: "ScoreWeights \<Rightarrow> PartialScoreWeights option \<Rightarrow> ScoreWeights" where
  "mergeWeights d custom =
     (case custom of
        None \<Rightarrow> d
      | Some c \<Rightarrow>
          \<lparr>valueWeight = (case valueOpt c of None \<Rightarrow> valueWeight d | Some w \<Rightarrow> w),
           cashflowWeight = (case cashflowOpt c of None \<Rightarrow> cashflowWeight d | Some w \<Rightarrow> w),
           riskWeight = (case riskOpt c of None \<Rightarrow> riskWeight d | Some w \<Rightarrow> w),
           usabilityWeight = (case usabilityOpt c of None \<Rightarrow> usabilityWeight d | Some w \<Rightarrow> w),
           campaignWeight = (case campaignOpt c of None \<Rightarrow> campaignWeight d | Some w \<Rightarrow> w)\<rparr>)"

text \<open>Phase 1, the body of the loop over the cards: \<open>None\<close> is the \<open>continue\<close>.\<close>

definition evaluateCard ::
  "TimeZone \<Rightarrow> Purchase \<Rightarrow> (int \<rightharpoonup> Campaign list) \<Rightarrow> Card \<Rightarrow> CardScoreData option" where
  "evaluateCard tz purchase byCardId crd =
     (let campaigns = (case byCardId (cardId crd) of None \<Rightarrow> [] | Some cs \<Rightarrow> cs);
          compatibility = checkCompatibility purchase crd campaigns
      in if \<not> compatible compatibility then None
         else
           (let campaignEval = evaluateCampaigns purchase crd campaigns;
                valueResult = computeValueTL purchase crd campaigns;
                installmentPlan =
                  buildInstallmentPlan tz (date purchase)
                    (CompatibilityResult.adjustedInstallments compatibility)
                    (statementDay crd) (dueDay crd);
                cashflow = cashflowScore installmentPlan;
                riskResult =
                  computeRiskPenalty tz crd purchase
                    (CompatibilityResult.adjustedInstallments compatibility)
                    (Some \<lparr>enrollmentOk =
                             Some (CampaignRequirements.enrollmentOk (requirementsOk campaignEval)),
                           codeOk =
                             Some (CampaignRequirements.codeOk (requirementsOk campaignEval))\<rparr>);
                resultingUtilization' =
                  jsdiv (totalLimit crd - (availableLimit crd - Purchase.amount purchase))
                        (totalLimit crd)
            in Some \<lparr>CardScoreData.cardOf = crd,
                     CardScoreData.netValueTL = ValueResult.netValueTL valueResult,
                     CardScoreData.valueScore = 0,
                     CardScoreData.cashflowScore = cashflow,
                     CardScoreData.riskPenalty = penalty riskResult,
                     CardScoreData.usabilityScore =
                       CompatibilityResult.usabilityScore compatibility,
                     CardScoreData.campaignMatchScore = matchScore campaignEval,
                     CardScoreData.adjustedInstallments =
                       CompatibilityResult.adjustedInstallments compatibility,
                     CardScoreData.resultingUtilization = resultingUtilization'\<rparr>))"

fun collectCardScoreData ::
  "TimeZone \<Rightarrow> Purchase \<Rightarrow> (int \<rightharpoonup> Campaign list) \<Rightarrow> Card list
     \<Rightarrow> CardScoreData list" where
  "collectCardScoreData tz purchase byCardId [] = []"
| "collectCardScoreData tz purchase byCardId (crd # cards) =
     (case evaluateCard tz purchase byCardId crd of
        None \<Rightarrow> collectCardScoreData tz purchase byCardId cards
      | Some d \<Rightarrow> d # collectCardScoreData tz purchase byCardId cards)"

text \<open>
  Phase 3, the body of the \<open>map\<close>. The cashflow score can be \<open>NaN\<close>, and so can the
  weighted sum and the total score.
\<close>

definition toScoredCard :: "ScoreWeights \<Rightarrow> CardScoreData \<Rightarrow> ScoredCard" where
  "toScoredCard w d =
     (let weighted =
            numPlus
              (numPlus
                 (numPlus
                    (numPlus (Fin (valueWeight w * CardScoreData.valueScore d))
                             (numTimes (CardScoreData.cashflowScore d) (cashflowWeight w)))
                    (Fin (riskWeight w * (1 - CardScoreData.riskPenalty d))))
                 (Fin (usabilityWeight w * CardScoreData.usabilityScore d)))
              (Fin (campaignWeight w * CardScoreData.campaignMatchScore d));
          total = numRound2 (numTimes weighted 100)
      in \<lparr>ScoredCard.cardOf = CardScoreData.cardOf d,
          ScoredCard.totalScore = numMax 0 (numMin total 100),
          ScoredCard.breakdown =
            \<lparr>ScoreBreakdown.netValueTL = CardScoreData.netValueTL d,
             ScoreBreakdown.valueScore = clamp01 (CardScoreData.valueScore d),
             ScoreBreakdown.cashflowScore = numClamp01 (CardScoreData.cashflowScore d),
             ScoreBreakdown.riskPenalty = clamp01 (CardScoreData.riskPenalty d),
             ScoreBreakdown.usabilityScore = clamp01 (CardScoreData.usabilityScore d),
             ScoreBreakdown.campaignMatchScore = clamp01 (CardScoreData.campaignMatchScore d)\<rparr>,
          ScoredCard.resultingUtilization = numRound2 (CardScoreData.resultingUtilization d),
          ScoredCard.adjustedInstallments = CardScoreData.adjustedInstallments d\<rparr>)"

text \<open>
  \<open>a.localeCompare(b)\<close> orders two strings by the collation of the runtime's locale.
  A collation compares the sort keys of the two strings; the sort key is the parameter
  \<open>collationKey\<close> of the model, into any linear order.
\<close>

definition localeCompare :: "(string \<Rightarrow> 'k::linorder) \<Rightarrow> string \<Rightarrow> string \<Rightarrow> real" where
  "localeCompare collationKey a b =
     (if collationKey a < collationKey b then -1
      else if collationKey a = collationKey b then 0
      else 1)"

text \<open>Phase 4, the comparison function handed to \<open>sort\<close>.\<close>

definition compareScored ::
  "(string \<Rightarrow> 'k::linorder) \<Rightarrow> ScoredCard \<Rightarrow> ScoredCard \<Rightarrow> number" where
  "compareScored collationKey a b =
     (let scoreDiff = numSub (totalScore b) (totalScore a)
      in if gt (numAbs scoreDiff) (1 / 1000000) then scoreDiff
         else
     (let valueDiff = ScoreBreakdown.valueScore (breakdown b)
                        - ScoreBreakdown.valueScore (breakdown a)
      in if \<bar>valueDiff\<bar> > 1 / 1000000 then Fin valueDiff
         else
     (let cashflowDiff = numSub (ScoreBreakdown.cashflowScore (breakdown b))
                                (ScoreBreakdown.cashflowScore (breakdown a))
      in if gt (numAbs cashflowDiff) (1 / 1000000) then cashflowDiff
         else
     (let riskDiff = ScoreBreakdown.riskPenalty (breakdown a)
                       - ScoreBreakdown.riskPenalty (breakdown b)
      in if \<bar>riskDiff\<bar> > 1 / 1000000 then Fin riskDiff
         else
     (let utilizationDiff =
            numSub (ScoredCard.resultingUtilization a) (ScoredCard.resultingUtilization b)
      in if gt (numAbs utilizationDiff) (1 / 1000000) then utilizationDiff
         else Fin (localeCompare collationKey (Card.name (ScoredCard.cardOf a))
                                              (Card.name (ScoredCard.cardOf b))))))))"

text \<open>
  \<open>Array.prototype.sort\<close> with a comparison function is a stable sort. It is modelled by
  stable insertion: the elements are inserted one by one into the sorted list, each in
  front of the first element which the comparison function, called as
  \<open>cmp(earlier, later)\<close>, puts after it with a positive result, and at the end when there
  is none. The comparison function of \<open>scoreCards\<close> is not a consistent ordering on all
  inputs, because differences up to \<open>1e-6\<close> count as ties and ties do not chain; the
  order of the result is then left to the engine, and the model fixes it to the order
  of stable insertion.
\<close>

fun insertSorted :: "('a \<Rightarrow> 'a \<Rightarrow> number) \<Rightarrow> 'a \<Rightarrow> 'a list \<Rightarrow> 'a list" where
  "insertSorted cmp x [] = [x]"
| "insertSorted cmp x (y # ys) =
     (if gt (cmp y x) 0 then x # y # ys else y # insertSorted cmp x ys)"

definition sortBy :: "('a \<Rightarrow> 'a \<Rightarrow> number) \<Rightarrow> 'a list \<Rightarrow> 'a list" where
  "sortBy cmp xs = foldl (\<lambda>sorted x. insertSorted cmp x sorted) [] xs"

text \<open>
  \<open>Math.min(...xs)\<close> and \<open>Math.max(...xs)\<close> of a list with first element \<open>x\<close>. The limit
  of an engine on the number of arguments of a call is not modelled.
\<close>

definition mathMin :: "real \<Rightarrow> real list \<Rightarrow> real" where
  "mathMin x xs = foldl min x xs"

definition mathMax :: "real \<Rightarrow> real list \<Rightarrow> real" where
  "mathMax x xs = foldl max x xs"

definition scoreCards ::
  "(string \<Rightarrow> 'k::linorder) \<Rightarrow> TimeZone \<Rightarrow> Purchase \<Rightarrow> Card list \<Rightarrow> ScoringOptions
     \<Rightarrow> ScoredCard list" where
  "scoreCards collationKey tz purchase cards options =
     (let byCardId = (case campaignsByCardId options of None \<Rightarrow> Map.empty | Some m \<Rightarrow> m);
          w = mergeWeights DEFAULT_WEIGHTS (weights options);
          cardScoreData = collectCardScoreData tz purchase byCardId cards
      in case cardScoreData of
           [] \<Rightarrow> []
         | d # ds \<Rightarrow>
             (let netValues = map CardScoreData.netValueTL cardScoreData;
                  minValue = mathMin (CardScoreData.netValueTL d) (map CardScoreData.netValueTL ds);
                  maxValue = mathMax (CardScoreData.netValueTL d) (map CardScoreData.netValueTL ds);
                  normalized =
                    map (\<lambda>e. e\<lparr>CardScoreData.valueScore :=
                                   minMaxNormalize (CardScoreData.netValueTL e) minValue maxValue\<rparr>)
                        cardScoreData;
                  scoredCards = map (toScoredCard w) normalized
              in sortBy (compareScored collationKey) scoredCards))"

subsection \<open>Scenario data\<close>

text \<open>
  The purchase, the card and the campaign of the documented scenario: an electronics
  purchase of 1500 TL in three installments on 2024-08-10, a card with a limit of 50000 TL
  of which 45000 TL are available, and the campaign "Electronics Cashback Boost".
\<close>

definition scenarioPurchase :: Purchase where
  "scenarioPurchase =
     \<lparr>Purchase.amount = 1500, Purchase.category = ''electronics'', installmentCount = 3,
      date = ISO 2024 8 10, Purchase.channel = ''online'', merchant = None,
      posFeePercent = None\<rparr>"

definition scenarioCard :: Card where
  "scenarioCard =
     \<lparr>cardId = 1, Card.name = ''Card A'', totalLimit = 50000, availableLimit = 45000,
      statementDay = 15, dueDay = 5, cashbackPercent = 0.025, pointRate = 1,
      pointValue = 0.01, installmentSupport = Num 12, utilization = None\<rparr>"

definition scenarioCampaign :: Campaign where
  "scenarioCampaign =
     \<lparr>Campaign.name = ''Electronics Cashback Boost'',
      Campaign.category = Some ''electronics'', Campaign.channel = None, brand = None,
      dateRange = None, minAmount = Some 1000, capAmount = Some 500,
      Campaign.extraCashbackPercent = Some 0.03, Campaign.extraPointRate = None,
      Campaign.flatDiscount = None, maxInstallments = None,
      Campaign.interestFreeMonths = None, requiresEnrollment = Some True,
      enrolled = Some True, requiresCode = None, codeProvided = None\<rparr>"

text \<open>A campaign that sets no field at all.\<close>

definition emptyCampaign :: Campaign where
  "emptyCampaign =
     \<lparr>Campaign.name = ''Campaign'',
      Campaign.category = None, Campaign.channel = None, brand = None,
      dateRange = None, minAmount = None, capAmount = None,
      Campaign.extraCashbackPercent = None, Campaign.extraPointRate = None,
      Campaign.flatDiscount = None, maxInstallments = None,
      Campaign.interestFreeMonths = None, requiresEnrollment = None,
      enrolled = None, requiresCode = None, codeProvided = None\<rparr>"

text \<open>
  Cards for a ranking: a second card that differs from the scenario card in its name only,
  a card with a lower cashback, and a card whose available limit is below the amount.
  The purchase is paid in one installment and there are no options.
\<close>

definition cardB :: Card where
  "cardB = scenarioCard\<lparr>cardId := 2, Card.name := ''Card B''\<rparr>"

definition cardC :: Card where
  "cardC = scenarioCard\<lparr>cardId := 3, Card.name := ''Card C'', cashbackPercent := 0.01\<rparr>"

definition cardPoor :: Card where
  "cardPoor = scenarioCard\<lparr>cardId := 4, Card.name := ''Card D'', availableLimit := 100\<rparr>"

definition singlePurchase :: Purchase where
  "singlePurchase = scenarioPurchase\<lparr>installmentCount := 1\<rparr>"

definition noOptions :: ScoringOptions where
  "noOptions = \<lparr>campaignsByCardId = None, weights = None\<rparr>"

text \<open>
  Two time zones. \<open>utc\<close> has the offset 0 on every day. \<open>europeBerlin\<close> has the offsets of
  the zone Europe/Berlin in the weeks around Sunday, 27 October 2024, when the clocks
  went back from 03:00 to 02:00: local midnight is two hours ahead of UTC up to and
  including that day and one hour ahead from the next day on, so that day lasts 25
  hours.
\<close>

definition utc :: TimeZone where
  "utc k = 0"

definition europeBerlin :: TimeZone where
  "europeBerlin k =
     (if k \<le> dayNumber \<lparr>getFullYear = 2024, getMonth = 9, getDate = 27\<rparr>
      then 2 * 60 * 60 * 1000 else 1 * 60 * 60 * 1000)"


section \<open>Reference formulations\<close>

text \<open>
  The quantities the documented behaviour speaks of, written from the documentation and
  not from the code; the theorems below compare them with what the code computes.
\<close>

subsection \<open>Calendar\<close>

text \<open>
  A date whose fields are in range, the same day of the following month, and the length
  of a local day in milliseconds.
\<close>

definition validDate :: "JSDate \<Rightarrow> bool" where
  "validDate dt =
     (0 \<le> getMonth dt \<and> getMonth dt \<le> 11
      \<and> 1 \<le> getDate dt \<and> getDate dt \<le> daysInMonth (getFullYear dt) (getMonth dt))"

definition followingMonth :: "int \<Rightarrow> int \<Rightarrow> int \<Rightarrow> JSDate" where
  "followingMonth y m d =
     (if m = 11 then \<lparr>getFullYear = y + 1, getMonth = 0, getDate = d\<rparr>
      else \<lparr>getFullYear = y, getMonth = m + 1, getDate = d\<rparr>)"

definition dayLength :: "TimeZone \<Rightarrow> JSDate \<Rightarrow> int" where
  "dayLength tz dt =
     getTime tz (newDate (getFullYear dt) (getMonth dt) (getDate dt + 1)) - getTime tz dt"

text \<open>A date string that \<open>new Date\<close> reads as a day.\<close>

definition calendarDate :: "ISODate \<Rightarrow> bool" where
  "calendarDate isoDate =
     (case isoDate of
        NotADate \<Rightarrow> False
      | ISO y m d \<Rightarrow> 1 \<le> m \<and> m \<le> 12 \<and> 1 \<le> d \<and> d \<le> 31)"

subsection \<open>Risk penalty\<close>


subsection \<open>Installment plan\<close>

text \<open>
  The shares of a plan of \<open>n\<close> installments, in double arithmetic: the even share
  \<open>round2(1/n)\<close> of the first \<open>n - 1\<close> entries, and the rounded remainder
  \<open>round2(1 - round2(1/n) \<times> (n - 1))\<close> of the last entry. The remainder as it is
  documented is not rounded: \<open>1 - round2(1/n) \<times> (n - 1)\<close>.
\<close>

definition evenShare :: "int \<Rightarrow> real" where
  "evenShare n = round2d (fdiv 1 (real_of_int n))"

definition remainderShare :: "int \<Rightarrow> real" where
  "remainderShare n = round2d (fsub 1 (fmul (evenShare n) (real_of_int (n - 1))))"

definition claimedRemainder :: "int \<Rightarrow> real" where
  "claimedRemainder n = fsub 1 (fmul (evenShare n) (real_of_int (n - 1)))"

text \<open>The sum of a list of doubles, added from left to right in double arithmetic.\<close>

definition doubleSum :: "real list \<Rightarrow> real" where
  "doubleSum xs = foldl fadd 0 xs"

subsection \<open>Installment ceiling\<close>

text \<open>
  The card-derived cap: the number itself, 24 for \<open>true\<close>, 0 for \<open>false\<close>. The largest
  \<open>maxInstallments\<close> found over the campaigns, 0 when none is found.
\<close>

definition cardInstallmentCap :: "InstallmentSupport \<Rightarrow> int" where
  "cardInstallmentCap s = (case s of Num n \<Rightarrow> n | Flag b \<Rightarrow> (if b then 24 else 0))"

definition campaignInstallmentMax :: "Campaign list \<Rightarrow> int" where
  "campaignInstallmentMax campaigns = Max (set (0 # List.map_filter maxInstallments campaigns))"

subsection \<open>Campaign benefit and its cap\<close>

text \<open>The base reward: cashback and points, each counted when positive.\<close>

definition baseRewards :: "Purchase \<Rightarrow> Card \<Rightarrow> real" where
  "baseRewards purchase crd =
     max 0 (Purchase.amount purchase * cashbackPercent crd)
     + max 0 (Purchase.amount purchase * pointRate crd * pointValue crd)"

definition summedCampaignBenefit :: "Purchase \<Rightarrow> Card \<Rightarrow> Campaign list \<Rightarrow> real" where
  "summedCampaignBenefit purchase crd campaigns =
     (\<Sum>c\<leftarrow>filter (isCampaignApplicable purchase) campaigns. campaignBenefit purchase crd c)"

text \<open>
  The campaign part of the reward as documented: the caps are the \<open>capAmount\<close>s carried by
  applicable campaigns; the sum is replaced by the least cap exactly when it exceeds it.
\<close>

definition claimedCampaignReward :: "Purchase \<Rightarrow> Card \<Rightarrow> Campaign list \<Rightarrow> real" where
  "claimedCampaignReward purchase crd campaigns =
     (let caps = List.map_filter capAmount (filter (isCampaignApplicable purchase) campaigns);
          total = summedCampaignBenefit purchase crd campaigns
      in if caps \<noteq> [] \<and> total > Min (set caps) then Min (set caps) else total)"

text \<open>
  The same with the two gates of the code: a cap of 0 is no cap, and a sum that is not
  positive adds nothing.
\<close>

definition amendedCampaignReward :: "Purchase \<Rightarrow> Card \<Rightarrow> Campaign list \<Rightarrow> real" where
  "amendedCampaignReward purchase crd campaigns =
     (let caps = filter (\<lambda>cap. cap \<noteq> 0)
                   (List.map_filter capAmount (filter (isCampaignApplicable purchase) campaigns));
          total = summedCampaignBenefit purchase crd campaigns
      in if total > 0
         then (if caps \<noteq> [] \<and> total > Min (set caps) then Min (set caps) else total)
         else 0)"

definition zeroCapCampaign :: Campaign where
  "zeroCapCampaign =
     emptyCampaign\<lparr>Campaign.extraCashbackPercent := Some 0.03, capAmount := Some 0\<rparr>"

subsection \<open>Campaign match\<close>

text \<open>
  The criteria of a campaign that are present, each with whether the purchase matches it,
  as documented: the date range, the channel unless "any", the category unless "general",
  the brand unless "general", and the minimum amount.
\<close>

definition inDateRange :: "Purchase \<Rightarrow> ISODate \<Rightarrow> ISODate \<Rightarrow> bool" where
  "inDateRange purchase start end =
     (dateLessEq (parseISODate start) (parseISODate (date purchase))
      \<and> dateLessEq (parseISODate (date purchase)) (parseISODate end))"

definition claimedCriteria :: "Purchase \<Rightarrow> Campaign \<Rightarrow> bool list" where
  "claimedCriteria purchase campaign =
     (case dateRange campaign of
        None \<Rightarrow> []
      | Some (start, end) \<Rightarrow> [inDateRange purchase start end])
     @ (case Campaign.channel campaign of
          None \<Rightarrow> []
        | Some ch \<Rightarrow> if ch = ''any'' then [] else [ch = Purchase.channel purchase])
     @ (case Campaign.category campaign of
          None \<Rightarrow> []
        | Some cat \<Rightarrow> if cat = ''general'' then [] else [cat = Purchase.category purchase])
     @ (case brand campaign of
          None \<Rightarrow> []
        | Some b \<Rightarrow> if b = ''general'' then [] else [merchant purchase = Some b])
     @ (case minAmount campaign of
          None \<Rightarrow> []
        | Some a \<Rightarrow> [a \<le> Purchase.amount purchase])"

text \<open>
  The same with the presence tests of the code: an empty channel, category or brand and a
  minimum amount of 0 are not criteria.
\<close>

definition amendedCriteria :: "Purchase \<Rightarrow> Campaign \<Rightarrow> bool list" where
  "amendedCriteria purchase campaign =
     (case dateRange campaign of
        None \<Rightarrow> []
      | Some (start, end) \<Rightarrow> [inDateRange purchase start end])
     @ (case Campaign.channel campaign of
          None \<Rightarrow> []
        | Some ch \<Rightarrow> if ch = [] \<or> ch = ''any'' then [] else [ch = Purchase.channel purchase])
     @ (case Campaign.category campaign of
          None \<Rightarrow> []
        | Some cat \<Rightarrow>
            if cat = [] \<or> cat = ''general'' then [] else [cat = Purchase.category purchase])
     @ (case brand campaign of
          None \<Rightarrow> []
        | Some b \<Rightarrow> if b = [] \<or> b = ''general'' then [] else [merchant purchase = Some b])
     @ (case minAmount campaign of
          None \<Rightarrow> []
        | Some a \<Rightarrow> if a = 0 then [] else [a \<le> Purchase.amount purchase])"

text \<open>
  The score of a list of criteria, and the average of the scores of the applicable
  campaigns (those with a positive score).
\<close>

definition criteriaScore :: "bool list \<Rightarrow> real" where
  "criteriaScore criteria =
     (let total = length criteria;
          matched = length (filter (\<lambda>ok. ok) criteria)
      in if total = 0 \<or> matched = total then 1
         else if 0 < matched then max 0.3 (real matched / real total)
         else 0)"

definition averageApplicable :: "real list \<Rightarrow> real" where
  "averageApplicable scores =
     (let applicable = filter (\<lambda>s. 0 < s) scores
      in if applicable = [] then 0 else sum_list applicable / real (length applicable))"

definition onlineMinZero :: Campaign where
  "onlineMinZero = emptyCampaign\<lparr>Campaign.channel := Some ''online'', minAmount := Some 0\<rparr>"

definition offlinePurchase :: Purchase where
  "offlinePurchase = scenarioPurchase\<lparr>Purchase.channel := ''offline''\<rparr>"

subsection \<open>Ranking\<close>

text \<open>The campaigns that \<open>scoreCards\<close> looks up for a card.\<close>

definition campaignsFor :: "ScoringOptions \<Rightarrow> Card \<Rightarrow> Campaign list" where
  "campaignsFor options crd =
     (case campaignsByCardId options of
        None \<Rightarrow> []
      | Some m \<Rightarrow> (case m (cardId crd) of None \<Rightarrow> [] | Some cs \<Rightarrow> cs))"






section \<open>Auxiliary lemmas\<close>

lemma Min_insert_absorb:
  "finite S \<Longrightarrow> a \<le> b \<Longrightarrow> Min (insert a (insert b S)) = Min (insert a S)"
  for a :: "'a::linorder"
  by (cases "S = {}") (simp_all add: min.assoc [symmetric] min.absorb1)

lemma Min_insert_absorb2:
  "finite S \<Longrightarrow> b \<le> a \<Longrightarrow> Min (insert a (insert b S)) = Min (insert b S)"
  for a :: "'a::linorder"
  by (cases "S = {}") (auto simp: min_def)

lemma Max_insert_absorb:
  "finite S \<Longrightarrow> b \<le> a \<Longrightarrow> Max (insert a (insert b S)) = Max (insert a S)"
  for a :: "'a::linorder"
  by (cases "S = {}") (simp_all add: max.assoc [symmetric] max.absorb1)

lemma Max_insert_absorb2:
  "finite S \<Longrightarrow> a \<le> b \<Longrightarrow> Max (insert a (insert b S)) = Max (insert b S)"
  for a :: "'a::linorder"
  by (cases "S = {}") (auto simp: max_def)

lemma foldl_add: "foldl (\<lambda>total c. total + f c) a cs = a + (\<Sum>c\<leftarrow>cs. f c)"
  for a :: real
  by (induction cs arbitrary: a) auto

lemma round2_hundredth: "round2 (real_of_int k / 100) = real_of_int k / 100"
  by (simp add: round2_def mathRound_def)

subsection \<open>The campaign scans as maxima and minima\<close>

lemma boost_fold:
  "0 \<le> a \<Longrightarrow>
   foldl (\<lambda>maxBoost campaign.
            case maxInstallments campaign of
              None \<Rightarrow> maxBoost
            | Some m \<Rightarrow> (if m \<noteq> 0 \<and> m > maxBoost then m else maxBoost)) a campaigns
   = Max (set (a # List.map_filter maxInstallments campaigns))"
proof (induction campaigns arbitrary: a)
  case Nil
  then show ?case by (simp add: List.map_filter_simps)
next
  case (Cons c cs)
  show ?case
  proof (cases "maxInstallments c")
    case None
    then show ?thesis using Cons.IH [of a] Cons.prems by (simp add: List.map_filter_simps)
  next
    case (Some m)
    have fin: "finite (set (List.map_filter maxInstallments cs))" by simp
    show ?thesis
    proof (cases "m > a")
      case True
      then have "Max (insert a (insert m (set (List.map_filter maxInstallments cs))))
                 = Max (insert m (set (List.map_filter maxInstallments cs)))"
        using Max_insert_absorb2 [OF fin, of a m] by simp
      moreover have "m \<noteq> 0" "0 \<le> m" using True Cons.prems by auto
      ultimately show ?thesis using True Some Cons.IH [of m]
        by (simp add: List.map_filter_simps)
    next
      case False
      then have "Max (insert a (insert m (set (List.map_filter maxInstallments cs))))
                 = Max (insert a (set (List.map_filter maxInstallments cs)))"
        using Max_insert_absorb [OF fin, of m a] by simp
      with False Some show ?thesis using Cons.IH [of a] Cons.prems
        by (simp add: List.map_filter_simps)
    qed
  qed
qed

lemma boost_eq: "getCampaignInstallmentBoost campaigns = campaignInstallmentMax campaigns"
  by (simp add: getCampaignInstallmentBoost_def campaignInstallmentMax_def boost_fold)

lemma findMinCap_fold:
  "foldl (\<lambda>minCap campaign.
            if truthy (capAmount campaign)
               \<and> (case minCap of None \<Rightarrow> True | Some m \<Rightarrow> valueOf (capAmount campaign) < m)
            then Some (valueOf (capAmount campaign)) else minCap) acc cs
   = (let caps = (case acc of None \<Rightarrow> [] | Some a \<Rightarrow> [a])
                  @ filter (\<lambda>cap. cap \<noteq> 0) (List.map_filter capAmount cs)
      in if caps = [] then None else Some (Min (set caps)))"
proof (induction cs arbitrary: acc)
  case Nil
  then show ?case by (simp add: List.map_filter_simps split: option.splits)
next
  case (Cons c cs)
  show ?case
  proof (cases "capAmount c")
    case None
    then show ?thesis using Cons.IH [of acc]
      by (simp add: List.map_filter_simps truthy_def)
  next
    case (Some cap)
    show ?thesis
    proof (cases "cap = 0")
      case True
      with Some show ?thesis using Cons.IH [of acc]
        by (simp add: List.map_filter_simps truthy_def)
    next
      case False
      show ?thesis
      proof (cases acc)
        case None
        with Some False show ?thesis using Cons.IH [of "Some cap"]
          by (simp add: List.map_filter_simps truthy_def valueOf_def Let_def)
      next
        case (Some a)
        note acc = this
        let ?S = "set (filter (\<lambda>cap. cap \<noteq> 0) (List.map_filter capAmount cs))"
        have fin: "finite ?S" by simp
        show ?thesis
        proof (cases "cap < a")
          case True
          have "Min (insert a (insert cap ?S)) = Min (insert cap ?S)"
            using True Min_insert_absorb2 [OF fin, of cap a] by simp
          with True acc \<open>capAmount c = Some cap\<close> False show ?thesis
            using Cons.IH [of "Some cap"]
            by (simp add: List.map_filter_simps truthy_def valueOf_def Let_def)
        next
          case nlt: False
          have "Min (insert a (insert cap ?S)) = Min (insert a ?S)"
            using nlt Min_insert_absorb [OF fin, of a cap] by simp
          with nlt acc \<open>capAmount c = Some cap\<close> False show ?thesis
            using Cons.IH [of "Some a"]
            by (simp add: List.map_filter_simps truthy_def valueOf_def Let_def)
        qed
      qed
    qed
  qed
qed

lemma computeValueTL_reward:
  "rewardTL (computeValueTL purchase crd campaigns)
     = round2 (baseRewards purchase crd + amendedCampaignReward purchase crd campaigns)"
  by (simp add: computeValueTL_def findMinCap_def findMinCap_fold foldl_add baseRewards_def
      amendedCampaignReward_def summedCampaignBenefit_def Let_def max_def)

subsection \<open>Dates\<close>

lemma daysInMonth_bounds: "28 \<le> daysInMonth y m" "daysInMonth y m \<le> 31"
  by (simp_all add: daysInMonth_def)

lemma normDay_id:
  "1 \<le> d \<Longrightarrow> d \<le> daysInMonth y m \<Longrightarrow>
   normDay y m d = \<lparr>getFullYear = y, getMonth = m, getDate = d\<rparr>"
  by (subst normDay.simps) simp

lemma normDay_over:
  "daysInMonth y m < d \<Longrightarrow>
   normDay y m d = normDay (if m = 11 then y + 1 else y) (if m = 11 then 0 else m + 1)
                     (d - daysInMonth y m)"
  using daysInMonth_bounds [of y m]
  by (subst normDay.simps) (simp add: Let_def)

lemma normDay_under:
  "d < 1 \<Longrightarrow>
   normDay y m d = normDay (if m = 0 then y - 1 else y) (if m = 0 then 11 else m - 1)
                     (d + daysInMonth (if m = 0 then y - 1 else y) (if m = 0 then 11 else m - 1))"
  by (subst normDay.simps) (simp add: Let_def)

lemma normDay_valid: "0 \<le> m \<Longrightarrow> m \<le> 11 \<Longrightarrow> validDate (normDay y m d)"
proof (induction y m d rule: normDay.induct)
  case (1 y m d)
  show ?case
  proof (cases "d < 1")
    case True
    then show ?thesis
      using "1.IH"(1) [OF True refl refl] "1.prems"
      by (simp add: normDay_under)
  next
    case False
    show ?thesis
    proof (cases "daysInMonth y m < d")
      case over: True
      then show ?thesis
        using "1.IH"(2) [OF False over refl refl] "1.prems"
        by (simp add: normDay_over)
    next
      case ok: False
      with False "1.prems" show ?thesis
        by (simp add: normDay_id validDate_def)
    qed
  qed
qed

lemma newDate_valid: "validDate (newDate y m d)"
  by (simp add: newDate_def normDay_valid)

lemma parseISODate_valid: "parseISODate b = Some dt \<Longrightarrow> validDate dt"
  by (cases b) (auto simp: newDate_valid)

lemma newDate_id:
  "0 \<le> m \<Longrightarrow> m \<le> 11 \<Longrightarrow> 1 \<le> d \<Longrightarrow> d \<le> daysInMonth y m \<Longrightarrow>
   newDate y m d = \<lparr>getFullYear = y, getMonth = m, getDate = d\<rparr>"
  by (simp add: newDate_def normDay_id)

lemma newDate_next:
  "0 \<le> m \<Longrightarrow> m \<le> 11 \<Longrightarrow> 1 \<le> d \<Longrightarrow> d \<le> 28 \<Longrightarrow>
   newDate y (m + 1) d = followingMonth y m d"
proof (cases "m = 11")
  case True
  assume "1 \<le> d" "d \<le> 28"
  then show ?thesis using True daysInMonth_bounds [of "y + 1" 0]
    by (simp add: newDate_def normDay_id followingMonth_def)
next
  case False
  assume a: "0 \<le> m" "m \<le> 11" "1 \<le> d" "d \<le> 28"
  then have "(m + 1) div 12 = 0" "(m + 1) mod 12 = m + 1" using False by auto
  then show ?thesis using False a daysInMonth_bounds [of y "m + 1"]
    by (simp add: newDate_def normDay_id followingMonth_def)
qed

lemma parse_toISODate: "validDate dt \<Longrightarrow> parseISODate (toISODate (Some dt)) = Some dt"
  by (simp add: toISODate_def validDate_def newDate_id)

lemma parse_NotADate: "parseISODate b = None \<longleftrightarrow> b = NotADate"
  by (cases b) simp_all

lemma daysBeforeMonth_Suc:
  "0 \<le> m \<Longrightarrow> daysBeforeMonth y (m + 1) = daysBeforeMonth y m + daysInMonth y m"
  by (simp add: daysBeforeMonth_def upto_rec2)

lemma daysBeforeMonth_0: "daysBeforeMonth y 0 = 0"
  by (simp add: daysBeforeMonth_def)

lemma daysBeforeMonth_12:
  "daysBeforeMonth y 12 = (if leapYear y then 366 else 365)"
proof -
  have "[0..11::int] = [0,1,2,3,4,5,6,7,8,9,10,11]"
    by (simp add: upto.simps)
  then show ?thesis by (simp add: daysBeforeMonth_def daysInMonth_def)
qed

lemma div_pred:
  "0 < n \<Longrightarrow> (y - 1) div n = (if y mod n = 0 then y div n - 1 else y div n)" for y n :: int
proof (cases "y mod n = 0")
  case True
  assume n: "0 < n"
  have "y = n * (y div n)" using True by (metis mult_div_mod_eq add.right_neutral)
  then have "y - 1 = n * (y div n - 1) + (n - 1)" by (simp add: algebra_simps)
  then have "(y - 1) div n = y div n - 1"
    using n int_div_pos_eq [of "y - 1" n "y div n - 1" "n - 1"] by simp
  then show ?thesis using True by simp
next
  case False
  assume n: "0 < n"
  have "0 \<le> y mod n" "y mod n < n" using n by simp_all
  then have r: "0 \<le> y mod n - 1" "y mod n - 1 < n" using False by linarith+
  have "y = n * (y div n) + y mod n" by simp
  then have "y - 1 = n * (y div n) + (y mod n - 1)" by linarith
  then have "(y - 1) div n = y div n"
    using r int_div_pos_eq [of "y - 1" n "y div n" "y mod n - 1"] by simp
  then show ?thesis using False by simp
qed

lemma mod_100_4: "y mod 100 = 0 \<Longrightarrow> y mod 4 = 0" for y :: int
  using mod_mod_cancel [of 4 100 y] by simp

lemma mod_400_100: "y mod 400 = 0 \<Longrightarrow> y mod 100 = 0" for y :: int
  using mod_mod_cancel [of 100 400 y] by simp

lemma daysBeforeYear_Suc:
  "daysBeforeYear (y + 1) = daysBeforeYear y + (if leapYear y then 366 else 365)"
  using mod_100_4 [of y] mod_400_100 [of y]
  by (auto simp: daysBeforeYear_def leapYear_def div_pred [of 4 y] div_pred [of 100 y]
      div_pred [of 400 y])

lemma dayNumber_followingMonth:
  "0 \<le> m \<Longrightarrow> m \<le> 11 \<Longrightarrow>
   dayNumber (followingMonth y m d)
     = dayNumber \<lparr>getFullYear = y, getMonth = m, getDate = 0\<rparr> + daysInMonth y m + d"
proof (cases "m = 11")
  case True
  have "daysBeforeMonth y 12 = daysBeforeMonth y 11 + daysInMonth y 11"
    using daysBeforeMonth_Suc [of 11 y] by simp
  then show ?thesis using True
    by (simp add: dayNumber_def followingMonth_def daysBeforeYear_Suc daysBeforeMonth_0
        daysBeforeMonth_12)
next
  case False
  assume "0 \<le> m"
  then show ?thesis using False
    by (simp add: dayNumber_def followingMonth_def daysBeforeMonth_Suc)
qed

lemma dayNumber_day:
  "dayNumber \<lparr>getFullYear = y, getMonth = m, getDate = d\<rparr>
     = dayNumber \<lparr>getFullYear = y, getMonth = m, getDate = 0\<rparr> + d"
  by (simp add: dayNumber_def)

lemma newDate_following_day:
  assumes m: "0 \<le> m" "m \<le> 11" and d: "1 \<le> d" "d \<le> daysInMonth y m"
  shows "newDate y m (d + 1) =
           (if d + 1 \<le> daysInMonth y m
            then \<lparr>getFullYear = y, getMonth = m, getDate = d + 1\<rparr>
            else followingMonth y m 1)"
proof (cases "d + 1 \<le> daysInMonth y m")
  case True
  then show ?thesis using m d by (simp add: newDate_id)
next
  case False
  then have over: "daysInMonth y m < d + 1" by simp
  then have dim: "d = daysInMonth y m" using d by simp
  have "newDate y m (d + 1) = normDay y m (d + 1)"
    unfolding newDate_def using m by simp
  also have "\<dots> = normDay (if m = 11 then y + 1 else y) (if m = 11 then 0 else m + 1)
                      (d + 1 - daysInMonth y m)"
    by (rule normDay_over [OF over])
  also have "\<dots> = followingMonth y m 1"
    using dim daysInMonth_bounds(1) [of "y + 1" 0] daysInMonth_bounds(1) [of y "m + 1"]
    by (simp add: normDay_id followingMonth_def)
  finally show ?thesis using False by simp
qed

lemma dayNumber_next:
  assumes "validDate dt"
  shows "dayNumber (newDate (getFullYear dt) (getMonth dt) (getDate dt + 1)) = dayNumber dt + 1"
proof -
  obtain y m d where dt: "dt = \<lparr>getFullYear = y, getMonth = m, getDate = d\<rparr>"
    by (cases dt) auto
  have v: "0 \<le> m" "m \<le> 11" "1 \<le> d" "d \<le> daysInMonth y m"
    using assms by (simp_all add: dt validDate_def)
  show ?thesis
  proof (cases "d + 1 \<le> daysInMonth y m")
    case True
    then show ?thesis
      using newDate_following_day [OF v] by (simp add: dt dayNumber_def)
  next
    case False
    then have "d = daysInMonth y m" using v by simp
    then show ?thesis
      using newDate_following_day [OF v] False dayNumber_followingMonth [OF v(1,2), of y 1]
        dayNumber_day [of y m d]
      by (simp add: dt)
  qed
qed

lemma dayLength_fixed_offset:
  assumes "validDate dt" "\<And>k. tz k = c"
  shows "dayLength tz dt = 24 * 60 * 60 * 1000"
  using dayNumber_next [OF assms(1)] assms(2)
  by (simp add: dayLength_def getTime_def)

lemma dateOfTime_short_day:
  assumes "dayLength tz dt \<le> 24 * 60 * 60 * 1000"
  shows "dateOfTime tz dt (getTime tz dt + 24 * 60 * 60 * 1000)
           = newDate (getFullYear dt) (getMonth dt) (getDate dt + 1)"
  using assms by (simp add: dateOfTime_def dayLength_def Let_def)

lemma dateOfTime_long_day:
  assumes "24 * 60 * 60 * 1000 < dayLength tz dt"
  shows "dateOfTime tz dt (getTime tz dt + 24 * 60 * 60 * 1000) = dt"
  using assms by (simp add: dateOfTime_def dayLength_def Let_def)

lemma nextDayOfMonth_eq:
  assumes base: "parseISODate b = Some \<lparr>getFullYear = y, getMonth = m, getDate = d0\<rparr>"
    and m: "0 \<le> m" "m \<le> 11" and c: "c = max 1 (min 28 k)"
  shows "nextDayOfMonth b k =
           toISODate (Some (if d0 \<le> c
                            then \<lparr>getFullYear = y, getMonth = m, getDate = c\<rparr>
                            else followingMonth y m c))"
proof -
  have cb: "1 \<le> c" "c \<le> 28" unfolding c by auto
  have "c \<le> daysInMonth y m" using daysInMonth_bounds(1) [of y m] cb by linarith
  then have 1: "newDate y m c = \<lparr>getFullYear = y, getMonth = m, getDate = c\<rparr>"
    using m cb by (simp add: newDate_id)
  have 2: "newDate y (m + 1) c = followingMonth y m c"
    using m cb by (simp add: newDate_next)
  have "nextDayOfMonth b k =
          (if d0 \<le> c then toISODate (Some (newDate y m c))
           else toISODate (Some (newDate y (m + 1) c)))"
    unfolding nextDayOfMonth_def Let_def base c by simp
  then show ?thesis unfolding 1 2 by simp
qed

lemma nextDayOfMonth_NotADate: "nextDayOfMonth NotADate k = NotADate"
  by (simp add: nextDayOfMonth_def toISODate_def)

lemma validDate_followingMonth:
  "0 \<le> m \<Longrightarrow> m \<le> 11 \<Longrightarrow> 1 \<le> d \<Longrightarrow> d \<le> 28 \<Longrightarrow> validDate (followingMonth y m d)"
  using daysInMonth_bounds(1) [of "y + 1" 0] daysInMonth_bounds(1) [of y "m + 1"]
  by (auto simp: validDate_def followingMonth_def)

lemma followingMonth_shape:
  "0 \<le> m \<Longrightarrow> m \<le> 11 \<Longrightarrow>
   \<exists>ny nm. followingMonth y m d = \<lparr>getFullYear = ny, getMonth = nm, getDate = d\<rparr>
            \<and> 0 \<le> nm \<and> nm \<le> 11"
  by (simp add: followingMonth_def)

text \<open>
  The result of \<open>nextDayOfMonth\<close> on a date: a day from 1 to 28 of some month.
\<close>

lemma nextDayOfMonth_shape:
  assumes "b \<noteq> NotADate"
  shows "\<exists>y m c. nextDayOfMonth b k = ISO y m c \<and> 1 \<le> m \<and> m \<le> 12 \<and> 1 \<le> c \<and> c \<le> 28
           \<and> parseISODate (ISO y m c) = Some \<lparr>getFullYear = y, getMonth = m - 1, getDate = c\<rparr>"
proof -
  obtain dt where p: "parseISODate b = Some dt"
    using assms parse_NotADate [of b] by (cases "parseISODate b") auto
  obtain y m d0 where dt: "dt = \<lparr>getFullYear = y, getMonth = m, getDate = d0\<rparr>"
    by (cases dt) auto
  have vb: "0 \<le> m" "m \<le> 11"
    using parseISODate_valid [OF p] by (simp_all add: dt validDate_def)
  define c where "c = max 1 (min 28 k)"
  have cb: "1 \<le> c" "c \<le> 28" by (auto simp: c_def)
  define r where "r = (if d0 \<le> c then \<lparr>getFullYear = y, getMonth = m, getDate = c\<rparr>
                       else followingMonth y m c)"
  have eq: "nextDayOfMonth b k = toISODate (Some r)"
    unfolding r_def by (rule nextDayOfMonth_eq [OF p [unfolded dt] vb c_def])
  have "\<exists>ry rm. r = \<lparr>getFullYear = ry, getMonth = rm, getDate = c\<rparr> \<and> 0 \<le> rm \<and> rm \<le> 11"
    unfolding r_def using vb followingMonth_shape [OF vb, of y c] by simp
  then obtain ry rm where r: "r = \<lparr>getFullYear = ry, getMonth = rm, getDate = c\<rparr>"
    and rm: "0 \<le> rm" "rm \<le> 11"
    by blast
  have v: "validDate r"
    using r rm cb daysInMonth_bounds(1) [of ry rm] by (simp add: validDate_def)
  have "parseISODate (ISO ry (rm + 1) c) = Some r"
    using parse_toISODate [OF v] by (simp add: toISODate_def r)
  then show ?thesis
    using eq rm cb by (intro exI [of _ ry] exI [of _ "rm + 1"] exI [of _ c])
      (simp add: toISODate_def r)
qed

text \<open>
  When the day of the statement date is not longer than 24 hours, the due date is at
  least one day after the statement date.
\<close>

lemma nextDueDate_after:
  assumes st: "parseISODate (nextStatementDate b s) = Some st"
    and len: "dayLength tz st \<le> 24 * 60 * 60 * 1000"
  shows "\<exists>du. parseISODate (nextDueDate tz b s d) = Some du \<and> dayNumber st + 1 \<le> dayNumber du"
proof -
  have "b \<noteq> NotADate"
    using st by (auto simp: nextStatementDate_def nextDayOfMonth_NotADate)
  then obtain dt where p: "parseISODate b = Some dt"
    using parse_NotADate [of b] by (cases "parseISODate b") auto
  obtain y m d0 where dt: "dt = \<lparr>getFullYear = y, getMonth = m, getDate = d0\<rparr>"
    by (cases dt) auto
  note base = p [unfolded dt]
  have vb: "0 \<le> m" "m \<le> 11"
    using parseISODate_valid [OF p] by (simp_all add: dt validDate_def)
  define cs where "cs = max 1 (min 28 s)"
  define cd where "cd = max 1 (min 28 d)"
  have cs: "1 \<le> cs" "cs \<le> 28" and cd: "1 \<le> cd" "cd \<le> 28"
    by (auto simp: cs_def cd_def)
  define st0 where "st0 = (if d0 \<le> cs
                      then \<lparr>getFullYear = y, getMonth = m, getDate = cs\<rparr>
                      else followingMonth y m cs)"
  have stmt: "nextStatementDate b s = toISODate (Some st0)"
    unfolding st0_def nextStatementDate_def by (rule nextDayOfMonth_eq [OF base vb cs_def])
  have "\<exists>sy sm. st0 = \<lparr>getFullYear = sy, getMonth = sm, getDate = cs\<rparr>
            \<and> 0 \<le> sm \<and> sm \<le> 11"
    unfolding st0_def using vb followingMonth_shape [OF vb, of y cs] by simp
  then obtain sy sm where st_eq: "st0 = \<lparr>getFullYear = sy, getMonth = sm, getDate = cs\<rparr>"
    and sm: "0 \<le> sm" "sm \<le> 11"
    by blast
  have st_valid: "validDate st0"
    using st_eq sm cs daysInMonth_bounds(1) [of sy sm] by (simp add: validDate_def)
  have pst: "parseISODate (toISODate (Some st0)) = Some st0"
    by (rule parse_toISODate [OF st_valid])
  have st0: "st = st0"
    using st pst by (simp add: stmt)
  have csd: "cs \<le> daysInMonth sy sm"
    using cs daysInMonth_bounds(1) [of sy sm] by linarith
  define af where "af = newDate sy sm (cs + 1)"
  have af_valid: "validDate af" unfolding af_def by (rule newDate_valid)
  have "dateOfTime tz st0 (getTime tz st0 + 24 * 60 * 60 * 1000) = af"
    using dateOfTime_short_day [OF len] by (simp add: st0 st_eq af_def)
  then have due: "nextDueDate tz b s d = nextDayOfMonth (toISODate (Some af)) d"
    using pst by (simp add: nextDueDate_def stmt Let_def)
  have paf: "parseISODate (toISODate (Some af)) = Some af"
    by (rule parse_toISODate [OF af_valid])
  have T_st: "dayNumber st = dayNumber \<lparr>getFullYear = sy, getMonth = sm, getDate = 0\<rparr> + cs"
    unfolding st0 st_eq by (rule dayNumber_day)
  have af_cases: "af = (if cs + 1 \<le> daysInMonth sy sm
                        then \<lparr>getFullYear = sy, getMonth = sm, getDate = cs + 1\<rparr>
                        else followingMonth sy sm 1)"
    unfolding af_def by (rule newDate_following_day [OF sm cs(1) csd])
  have T_due: "\<exists>du. parseISODate (nextDueDate tz b s d) = Some du
                 \<and> dayNumber \<lparr>getFullYear = sy, getMonth = sm, getDate = 0\<rparr> + cs + 1
                     \<le> dayNumber du"
  proof (cases "cs + 1 \<le> daysInMonth sy sm")
    case True
    then have af_eq: "af = \<lparr>getFullYear = sy, getMonth = sm, getDate = cs + 1\<rparr>"
      using af_cases by simp
    have dueq: "nextDueDate tz b s d =
                  toISODate (Some (if cs + 1 \<le> cd
                             then \<lparr>getFullYear = sy, getMonth = sm, getDate = cd\<rparr>
                             else followingMonth sy sm cd))"
      unfolding due
      unfolding af_eq by (rule nextDayOfMonth_eq [OF paf [unfolded af_eq] sm cd_def])
    show ?thesis
    proof (cases "cs + 1 \<le> cd")
      case le: True
      have v: "validDate \<lparr>getFullYear = sy, getMonth = sm, getDate = cd\<rparr>"
        using sm cd daysInMonth_bounds(1) [of sy sm] by (simp add: validDate_def)
      have "nextDueDate tz b s d
              = toISODate (Some \<lparr>getFullYear = sy, getMonth = sm, getDate = cd\<rparr>)"
        using dueq le by simp
      then have "parseISODate (nextDueDate tz b s d)
                   = Some \<lparr>getFullYear = sy, getMonth = sm, getDate = cd\<rparr>"
        using parse_toISODate [OF v] by simp
      then show ?thesis using le dayNumber_day [of sy sm cd] by simp
    next
      case gt: False
      have v: "validDate (followingMonth sy sm cd)"
        using validDate_followingMonth [OF sm cd] .
      have "nextDueDate tz b s d = toISODate (Some (followingMonth sy sm cd))"
        using dueq gt by simp
      then have "parseISODate (nextDueDate tz b s d) = Some (followingMonth sy sm cd)"
        using parse_toISODate [OF v] by simp
      then show ?thesis
        using cs cd daysInMonth_bounds(1) [of sy sm] dayNumber_followingMonth [OF sm, of sy cd]
        by simp
    qed
  next
    case False
    then have dim: "daysInMonth sy sm = 28" and cs28: "cs = 28"
      using cs daysInMonth_bounds(1) [of sy sm] by linarith+
    have af_eq: "af = followingMonth sy sm 1"
      using af_cases False by simp
    obtain ay am where a: "followingMonth sy sm 1 = \<lparr>getFullYear = ay, getMonth = am, getDate = 1\<rparr>"
      and am: "0 \<le> am" "am \<le> 11"
      using followingMonth_shape [OF sm, of sy 1] by blast
    have "nextDueDate tz b s d =
            toISODate (Some (if 1 \<le> cd
                       then \<lparr>getFullYear = ay, getMonth = am, getDate = cd\<rparr>
                       else followingMonth ay am cd))"
      unfolding due
      unfolding af_eq a by (rule nextDayOfMonth_eq [OF paf [unfolded af_eq a] am cd_def])
    then have dueq: "nextDueDate tz b s d
                       = toISODate (Some \<lparr>getFullYear = ay, getMonth = am, getDate = cd\<rparr>)"
      using cd by simp
    have v: "validDate \<lparr>getFullYear = ay, getMonth = am, getDate = cd\<rparr>"
      using am cd daysInMonth_bounds(1) [of ay am] by (simp add: validDate_def)
    have fm: "\<lparr>getFullYear = ay, getMonth = am, getDate = cd\<rparr> = followingMonth sy sm cd"
      using a by (auto simp: followingMonth_def split: if_splits)
    have "parseISODate (nextDueDate tz b s d) = Some (followingMonth sy sm cd)"
      using dueq parse_toISODate [OF v] fm by simp
    then show ?thesis
      using cs cd dim dayNumber_followingMonth [OF sm, of sy cd] by simp
  qed
  show ?thesis using T_st T_due by simp
qed

text \<open>The scenario dates in the zone \<open>utc\<close>.\<close>

lemma utc_next_day:
  "validDate dt \<Longrightarrow>
   dateOfTime utc dt (getTime utc dt + 24 * 60 * 60 * 1000)
     = newDate (getFullYear dt) (getMonth dt) (getDate dt + 1)"
  by (rule dateOfTime_short_day) (simp add: dayLength_fixed_offset [where c = 0] utc_def)

lemma scenario_statement: "nextStatementDate (ISO 2024 8 10) 15 = ISO 2024 8 15"
  by (simp add: nextStatementDate_def nextDayOfMonth_def newDate_id daysInMonth_def
      toISODate_def Let_def)

lemma scenario_dates:
  "nextDueDate utc (ISO 2024 8 10) 15 5 = ISO 2024 9 5"
  "nextDueDate utc (ISO 2024 8 10) 15 15 = ISO 2024 9 15"
proof -
  have v: "validDate \<lparr>getFullYear = 2024, getMonth = 7, getDate = 15\<rparr>"
    by (simp add: validDate_def daysInMonth_def)
  have n: "dateOfTime utc \<lparr>getFullYear = 2024, getMonth = 7, getDate = 15\<rparr>
             (getTime utc \<lparr>getFullYear = 2024, getMonth = 7, getDate = 15\<rparr>
                + 24 * 60 * 60 * 1000)
           = \<lparr>getFullYear = 2024, getMonth = 7, getDate = 16\<rparr>"
    using utc_next_day [OF v] by (simp add: newDate_id daysInMonth_def)
  show "nextDueDate utc (ISO 2024 8 10) 15 5 = ISO 2024 9 5"
    using n by (simp add: nextDueDate_def scenario_statement newDate_id daysInMonth_def
        nextDayOfMonth_def toISODate_def Let_def)
  show "nextDueDate utc (ISO 2024 8 10) 15 15 = ISO 2024 9 15"
    using n by (simp add: nextDueDate_def scenario_statement newDate_id daysInMonth_def
        nextDayOfMonth_def toISODate_def Let_def)
qed

lemma scenario_dayNumbers:
  "dayNumber \<lparr>getFullYear = 2024, getMonth = 8, getDate = 5\<rparr>
     = dayNumber \<lparr>getFullYear = 2024, getMonth = 7, getDate = 10\<rparr> + 26"
proof -
  have "daysBeforeMonth 2024 8 = daysBeforeMonth 2024 7 + 31"
    using daysBeforeMonth_Suc [of 7 2024] by (simp add: daysInMonth_def)
  then show ?thesis
    by (simp add: dayNumber_def)
qed

lemma scenario_days: "daysBetween utc (ISO 2024 8 10) (ISO 2024 9 5) = Some 26"
  by (simp add: daysBetween_def newDate_id daysInMonth_def getTime_def utc_def
      scenario_dayNumbers Let_def)

subsection \<open>Double arithmetic\<close>

lemma roundTiesToEven_error: "\<bar>real_of_int (roundTiesToEven x) - x\<bar> \<le> 1 / 2"
  unfolding roundTiesToEven_def Let_def by (auto simp: abs_if) linarith+

lemma dbl_eval:
  assumes "2 powr (real_of_int e) \<le> \<bar>x\<bar>" "\<bar>x\<bar> < 2 powr (real_of_int e + 1)"
  shows "dbl x = real_of_int (roundTiesToEven (x * 2 powr (52 - real_of_int e)))
                   * 2 powr (real_of_int e - 52)"
proof -
  have pos: "0 < \<bar>x\<bar>"
    using assms(1) by (smt (verit) powr_gt_zero)
  have "\<lfloor>log 2 \<bar>x\<bar>\<rfloor> = e"
    using floor_log_eq_powr_iff [of "\<bar>x\<bar>" 2 e] pos assms by simp
  moreover have "x \<noteq> 0"
    using pos by simp
  ultimately show ?thesis
    by (simp add: dbl_def)
qed

lemma dbl_error: "\<bar>dbl x - x\<bar> \<le> \<bar>x\<bar> / 2 ^ 53"
proof (cases "x = 0")
  case True
  then show ?thesis by (simp add: dbl_def)
next
  case False
  define e where "e = \<lfloor>log 2 \<bar>x\<bar>\<rfloor>"
  define y where "y = x * 2 powr (52 - real_of_int e)"
  define m where "m = roundTiesToEven y"
  have pos: "0 < \<bar>x\<bar>"
    using False by simp
  have lo: "2 powr (real_of_int e) \<le> \<bar>x\<bar>"
    using floor_log_eq_powr_iff [of "\<bar>x\<bar>" 2 e] pos by (simp add: e_def)
  have d: "dbl x = real_of_int m * 2 powr (real_of_int e - 52)"
    using False by (simp add: dbl_def Let_def e_def y_def m_def)
  have x: "x = y * 2 powr (real_of_int e - 52)"
    by (simp add: y_def powr_add [symmetric])
  have "dbl x - x = (real_of_int m - y) * 2 powr (real_of_int e - 52)"
    using d x by (simp add: algebra_simps)
  then have "\<bar>dbl x - x\<bar> = \<bar>real_of_int m - y\<bar> * 2 powr (real_of_int e - 52)"
    by (simp add: abs_mult)
  also have "\<dots> \<le> 1 / 2 * 2 powr (real_of_int e - 52)"
    using roundTiesToEven_error [of y] by (simp add: m_def)
  also have "\<dots> = 2 powr (real_of_int e) / 2 ^ 53"
    by (simp add: powr_diff)
  also have "\<dots> \<le> \<bar>x\<bar> / 2 ^ 53"
    using lo by (simp add: divide_right_mono)
  finally show ?thesis .
qed

lemma dbl_0: "dbl 0 = 0"
  by (simp add: dbl_def)

lemma dbl_1: "dbl 1 = 1"
  using dbl_eval [of 0 1] by (simp add: roundTiesToEven_def powr_neg_numeral)

lemma dbl_100: "dbl 100 = 100"
  using dbl_eval [of 6 100] by (simp add: roundTiesToEven_def powr_neg_numeral)


lemma dbl_approx: "\<bar>x\<bar> \<le> B \<Longrightarrow> \<bar>dbl x - x\<bar> \<le> B / 2 ^ 53"
  using dbl_error [of x] by (smt (verit) divide_right_mono zero_le_numeral zero_le_power)

lemma dbl_nonneg: "0 \<le> x \<Longrightarrow> 0 \<le> dbl x"
proof -
  assume x: "0 \<le> x"
  have "x / 2 ^ 53 \<le> x"
    using x by (simp add: field_simps)
  then show ?thesis
    using dbl_error [of x] x by linarith
qed

lemma dbl_upper: "0 \<le> x \<Longrightarrow> dbl x \<le> x * (1 + 1 / 2 ^ 53)"
proof -
  assume x: "0 \<le> x"
  have "x * (1 + 1 / 2 ^ 53) = x + x / 2 ^ 53"
    by (simp add: algebra_simps)
  then show ?thesis
    using dbl_error [of x] x by linarith
qed

lemma mathRound_int:
  "\<bar>u - real_of_int J\<bar> < 1 / 2 \<Longrightarrow> mathRound u = J"
  unfolding mathRound_def by linarith

subsection \<open>Installment plans\<close>

lemma shares_far:
  assumes n: "201 \<le> n"
  shows "evenShare n = 0" "remainderShare n = 1"
proof -
  define q where "q = dbl (1 / real_of_int n)"
  define p where "p = dbl (q * 100)"
  have npos: "201 \<le> real_of_int n" using n by simp
  have inv: "1 / real_of_int n \<le> 1 / 201"
    using npos by (simp add: field_simps)
  have q0: "0 \<le> q"
    unfolding q_def using npos by (intro dbl_nonneg) simp
  have "q \<le> 1 / real_of_int n * (1 + 1 / 2 ^ 53)"
    unfolding q_def using npos by (intro dbl_upper) simp
  also have "\<dots> \<le> 1 / 201 * (1 + 1 / 2 ^ 53)"
    using inv by (intro mult_right_mono) simp_all
  finally have q1: "q \<le> 1 / 201 * (1 + 1 / 2 ^ 53)" .
  have p0: "0 \<le> p"
    unfolding p_def using q0 by (intro dbl_nonneg) simp
  have "p \<le> q * 100 * (1 + 1 / 2 ^ 53)"
    unfolding p_def using q0 by (intro dbl_upper) simp
  also have "\<dots> \<le> (1 / 201 * (1 + 1 / 2 ^ 53)) * 100 * (1 + 1 / 2 ^ 53)"
    using q1 by (intro mult_right_mono) simp_all
  also have "\<dots> < 1 / 2"
    by simp
  finally have p1: "p < 1 / 2" .
  have k: "mathRound p = 0"
    using p0 p1 by (intro mathRound_int) simp
  show e: "evenShare n = 0"
    by (simp add: evenShare_def round2d_def fdiv_def fmul_def k dbl_0
        q_def [symmetric] p_def [symmetric])
  have "mathRound 100 = 100"
    by (simp add: mathRound_def)
  then show "remainderShare n = 1"
    by (simp add: remainderShare_def e round2d_def fdiv_def fmul_def fsub_def dbl_0 dbl_1 dbl_100)
qed

lemma shares_near:
  assumes n: "2 \<le> n" "n \<le> 200"
  shows "\<bar>real_of_int (n - 1) * evenShare n + remainderShare n - 1\<bar> \<le> 3 / 2 ^ 53"
proof -
  define eps :: real where "eps = 1 / 2 ^ 53"
  define q where "q = dbl (1 / real_of_int n)"
  define p where "p = dbl (q * 100)"
  define k where "k = mathRound p"
  define a where "a = dbl (real_of_int k / 100)"
  define r where "r = dbl (a * real_of_int (n - 1))"
  define s where "s = dbl (1 - r)"
  define u where "u = dbl (s * 100)"
  define j where "j = mathRound u"
  define K where "K = k * (n - 1)"
  have a_eq: "evenShare n = a"
    by (simp add: evenShare_def round2d_def fdiv_def fmul_def a_def k_def p_def q_def)
  have l_eq: "remainderShare n = dbl (real_of_int j / 100)"
    by (simp add: remainderShare_def a_eq round2d_def fdiv_def fmul_def fsub_def
        j_def u_def s_def r_def)
  have n2: "2 \<le> real_of_int n" and n200: "real_of_int n \<le> 200"
    using n by simp_all
  have inv: "1 / real_of_int n \<le> 1 / 2"
    using n2 by (simp add: field_simps)
  have q0: "0 \<le> q"
    unfolding q_def using n2 by (intro dbl_nonneg) simp
  have q1: "q \<le> 1 / real_of_int n * (1 + 1 / 2 ^ 53)"
    unfolding q_def using n2 by (intro dbl_upper) simp
  have p0: "0 \<le> p"
    unfolding p_def using q0 by (intro dbl_nonneg) simp
  have "p \<le> q * 100 * (1 + 1 / 2 ^ 53)"
    unfolding p_def using q0 by (intro dbl_upper) simp
  also have "\<dots> \<le> (1 / real_of_int n * (1 + 1 / 2 ^ 53)) * 100 * (1 + 1 / 2 ^ 53)"
    using q1 by (intro mult_right_mono) simp_all
  also have "\<dots> = 100 / real_of_int n * (1 + 1 / 2 ^ 53) ^ 2"
    by (simp add: power2_eq_square)
  also have "\<dots> \<le> 100 / real_of_int n * (1001 / 1000)"
    using n2 by (intro mult_left_mono) (simp_all add: power2_eq_square)
  finally have p1: "p \<le> 100 / real_of_int n * (1001 / 1000)" .
  have k0: "0 \<le> k"
    unfolding k_def mathRound_def using p0 by simp
  have k1: "real_of_int k \<le> p + 1 / 2"
    unfolding k_def mathRound_def by linarith
  have K0: "0 \<le> K"
    unfolding K_def using k0 n by simp
  have "real_of_int K = real_of_int k * (real_of_int n - 1)"
    by (simp add: K_def)
  also have "\<dots> \<le> (p + 1 / 2) * (real_of_int n - 1)"
    using k1 n2 by (intro mult_right_mono) simp_all
  also have "\<dots> \<le> (100 / real_of_int n * (1001 / 1000) + 1 / 2) * (real_of_int n - 1)"
    using p1 n2 by (intro mult_right_mono) simp_all
  also have "\<dots> = (1001 / 10) * ((real_of_int n - 1) / real_of_int n) + (real_of_int n - 1) / 2"
    using n2 by (simp add: field_simps)
  also have "\<dots> \<le> (1001 / 10) * 1 + 199 / 2"
  proof -
    have "(real_of_int n - 1) / real_of_int n \<le> 1"
      using n2 by (simp add: field_simps)
    then show ?thesis
      using n200 by (intro add_mono mult_left_mono) simp_all
  qed
  finally have "real_of_int K < 200"
    by simp
  then have K1: "K \<le> 199"
    by linarith
  have Kr: "0 \<le> real_of_int K" "real_of_int K \<le> 199"
    using K0 K1 by simp_all
  have kr: "0 \<le> real_of_int k"
    using k0 by simp
  have a_err: "\<bar>a - real_of_int k / 100\<bar> \<le> real_of_int k / 100 * eps"
    unfolding a_def eps_def using dbl_error [of "real_of_int k / 100"] kr by simp
  have "a * real_of_int (n - 1) - real_of_int K / 100
          = (a - real_of_int k / 100) * real_of_int (n - 1)"
    by (simp add: K_def algebra_simps)
  then have "\<bar>a * real_of_int (n - 1) - real_of_int K / 100\<bar>
          = \<bar>a - real_of_int k / 100\<bar> * \<bar>real_of_int (n - 1)\<bar>"
    by (simp only: abs_mult)
  also have "\<dots> = \<bar>a - real_of_int k / 100\<bar> * real_of_int (n - 1)"
    using n by simp
  also have "\<dots> \<le> real_of_int k / 100 * eps * real_of_int (n - 1)"
    using a_err n by (intro mult_right_mono) simp_all
  also have "\<dots> = real_of_int K / 100 * eps"
    by (simp add: K_def)
  also have "\<dots> \<le> 2 * eps"
    using Kr by (simp add: eps_def)
  finally have prod_err: "\<bar>a * real_of_int (n - 1) - real_of_int K / 100\<bar> \<le> 2 * eps" .
  have eps_small: "0 < eps" "eps \<le> 1 / 1000000"
    by (simp_all add: eps_def)
  have "\<bar>a * real_of_int (n - 1)\<bar> \<le> 3"
    using prod_err Kr eps_small by linarith
  then have r_err: "\<bar>r - a * real_of_int (n - 1)\<bar> \<le> 3 * eps"
    unfolding r_def eps_def using dbl_approx [of "a * real_of_int (n - 1)" 3] by simp
  have r_tot: "\<bar>r - real_of_int K / 100\<bar> \<le> 5 * eps"
    using r_err prod_err by linarith
  have "\<bar>1 - r\<bar> \<le> 3"
    using r_tot Kr eps_small by linarith
  then have s_err: "\<bar>s - (1 - r)\<bar> \<le> 3 * eps"
    unfolding s_def eps_def using dbl_approx [of "1 - r" 3] by simp
  have s_tot: "\<bar>s - (1 - real_of_int K / 100)\<bar> \<le> 8 * eps"
    using s_err r_tot by linarith
  have "\<bar>s * 100\<bar> \<le> 200"
    using s_tot Kr eps_small by linarith
  then have u_err: "\<bar>u - s * 100\<bar> \<le> 200 * eps"
    unfolding u_def eps_def using dbl_approx [of "s * 100" 200] by simp
  have u_tot: "\<bar>u - real_of_int (100 - K)\<bar> \<le> 1000 * eps"
    using u_err s_tot by simp
  have j_eq: "j = 100 - K"
    unfolding j_def using u_tot eps_small by (intro mathRound_int) linarith
  have "\<bar>real_of_int j / 100\<bar> \<le> 1"
    using Kr by (simp add: j_eq)
  then have l_err: "\<bar>dbl (real_of_int j / 100) - real_of_int j / 100\<bar> \<le> eps"
    unfolding eps_def using dbl_approx [of "real_of_int j / 100" 1] by simp
  have "real_of_int (n - 1) * a + dbl (real_of_int j / 100) - 1
          = (a * real_of_int (n - 1) - real_of_int K / 100)
            + (dbl (real_of_int j / 100) - real_of_int j / 100)"
    by (simp add: j_eq field_simps)
  then have "\<bar>real_of_int (n - 1) * a + dbl (real_of_int j / 100) - 1\<bar> \<le> 3 * eps"
    using prod_err l_err by linarith
  then show ?thesis
    by (simp add: a_eq l_eq eps_def)
qed

lemma shares_sum:
  assumes "2 \<le> n"
  shows "\<bar>real_of_int (n - 1) * evenShare n + remainderShare n - 1\<bar> \<le> 3 / 2 ^ 53"
proof (cases "n \<le> 200")
  case True
  then show ?thesis by (rule shares_near [OF assms])
next
  case False
  then have "201 \<le> n" by simp
  then show ?thesis using shares_far [of n] by simp
qed

lemma plan_length: "1 \<le> n \<Longrightarrow> length (buildInstallmentPlan tz p n s d) = nat n"
  by (simp add: buildInstallmentPlan_def Let_def)

lemma plan_amounts:
  assumes "1 < n"
  shows "map PaymentPlan.amount (buildInstallmentPlan tz p n s d)
           = replicate (nat (n - 1)) (evenShare n) @ [remainderShare n]"
proof -
  define a where "a = evenShare n"
  define l where "l = remainderShare n"
  have split: "[0..n - 1] = [0..n - 2] @ [n - 1]"
    using assms upto_rec2 [of 0 "n - 1"] by (simp add: algebra_simps)
  have front: "map (\<lambda>i. if i = n - 1 then l else a) [0..n - 2] = replicate (nat (n - 1)) a"
  proof -
    have "map (\<lambda>i. if i = n - 1 then l else a) [0..n - 2] = map (\<lambda>i. a) [0..n - 2]"
      by (rule map_cong) auto
    also have "\<dots> = replicate (length [0..n - 2]) a"
      by (simp add: map_replicate_const)
    also have "length [0..n - 2] = nat (n - 1)"
      using assms by simp
    finally show ?thesis .
  qed
  have "map PaymentPlan.amount (buildInstallmentPlan tz p n s d)
          = map (\<lambda>i. if i = n - 1 then l else a) [0..n - 1]"
    using assms
    by (simp add: buildInstallmentPlan_def Let_def a_def l_def evenShare_def remainderShare_def
        o_def)
  also have "\<dots> = replicate (nat (n - 1)) a @ [l]"
    unfolding split using front by simp
  finally show ?thesis unfolding a_def l_def .
qed

lemma plan_single:
  "n \<le> 1 \<Longrightarrow> map PaymentPlan.amount (buildInstallmentPlan tz p n s d) = [1]"
  by (simp add: buildInstallmentPlan_def Let_def)

lemma plan_sum:
  assumes "1 < n"
  shows "sum_list (map PaymentPlan.amount (buildInstallmentPlan tz p n s d))
           = real_of_int (n - 1) * evenShare n + remainderShare n"
  unfolding plan_amounts [OF assms] using assms by (simp add: sum_list_replicate)

lemma plan_weight_pos:
  "0 < sum_list (map PaymentPlan.amount (buildInstallmentPlan tz p n s d))"
proof (cases "1 < n")
  case True
  then have "\<bar>real_of_int (n - 1) * evenShare n + remainderShare n - 1\<bar> \<le> 3 / 2 ^ 53"
    by (intro shares_sum) simp
  moreover have "(3::real) / 2 ^ 53 < 1"
    by simp
  ultimately show ?thesis
    unfolding plan_sum [OF True] by linarith
next
  case False
  then show ?thesis by (simp add: plan_single)
qed

text \<open>The plan of ten installments.\<close>

lemma ten_quotient: "fdiv (1) (10) = 3602879701896397 / 36028797018963968"
  using dbl_eval [of "-4" "1 / 10"]
  by (simp add: fdiv_def roundTiesToEven_def powr_neg_numeral)

lemma ten_percent: "fmul (3602879701896397 / 36028797018963968) (100) = 10"
  using dbl_eval [of 3 "90071992547409925 / 9007199254740992"]
  by (simp add: fmul_def roundTiesToEven_def powr_neg_numeral)

lemma ten_product: "fmul (3602879701896397 / 36028797018963968) (9) = 8106479329266893 / 9007199254740992"
  using dbl_eval [of "-1" "32425917317067573 / 36028797018963968"]
  by (simp add: fmul_def roundTiesToEven_def powr_neg_numeral)

lemma ten_difference: "fsub (1) (8106479329266893 / 9007199254740992) = 900719925474099 / 9007199254740992"
  using dbl_eval [of "-4" "900719925474099 / 9007199254740992"]
  by (simp add: fsub_def roundTiesToEven_def powr_neg_numeral)

lemma ten_remainder_percent: "fmul (900719925474099 / 9007199254740992) (100) = 5629499534213119 / 562949953421312"
  using dbl_eval [of 3 "22517998136852475 / 2251799813685248"]
  by (simp add: fmul_def roundTiesToEven_def powr_neg_numeral)

lemma ten_sum_2: "fadd (3602879701896397 / 36028797018963968) (3602879701896397 / 36028797018963968) = 3602879701896397 / 18014398509481984"
  using dbl_eval [of "-3" "3602879701896397 / 18014398509481984"]
  by (simp add: fadd_def roundTiesToEven_def powr_neg_numeral)

lemma ten_sum_3: "fadd (3602879701896397 / 18014398509481984) (3602879701896397 / 36028797018963968) = 1351079888211149 / 4503599627370496"
  using dbl_eval [of "-2" "10808639105689191 / 36028797018963968"]
  by (simp add: fadd_def roundTiesToEven_def powr_neg_numeral)

lemma ten_sum_4: "fadd (1351079888211149 / 4503599627370496) (3602879701896397 / 36028797018963968) = 3602879701896397 / 9007199254740992"
  using dbl_eval [of "-2" "14411518807585589 / 36028797018963968"]
  by (simp add: fadd_def roundTiesToEven_def powr_neg_numeral)

lemma ten_sum_5: "fadd (3602879701896397 / 9007199254740992) (3602879701896397 / 36028797018963968) = 1 / 2"
  using dbl_eval [of "-1" "18014398509481985 / 36028797018963968"]
  by (simp add: fadd_def roundTiesToEven_def powr_neg_numeral)

lemma ten_sum_6: "fadd (1 / 2) (3602879701896397 / 36028797018963968) = 5404319552844595 / 9007199254740992"
  using dbl_eval [of "-1" "21617278211378381 / 36028797018963968"]
  by (simp add: fadd_def roundTiesToEven_def powr_neg_numeral)

lemma ten_sum_7: "fadd (5404319552844595 / 9007199254740992) (3602879701896397 / 36028797018963968) = 3152519739159347 / 4503599627370496"
  using dbl_eval [of "-1" "25220157913274777 / 36028797018963968"]
  by (simp add: fadd_def roundTiesToEven_def powr_neg_numeral)

lemma ten_sum_8: "fadd (3152519739159347 / 4503599627370496) (3602879701896397 / 36028797018963968) = 7205759403792793 / 9007199254740992"
  using dbl_eval [of "-1" "28823037615171173 / 36028797018963968"]
  by (simp add: fadd_def roundTiesToEven_def powr_neg_numeral)

lemma ten_sum_9: "fadd (7205759403792793 / 9007199254740992) (3602879701896397 / 36028797018963968) = 2026619832316723 / 2251799813685248"
  using dbl_eval [of "-1" "32425917317067569 / 36028797018963968"]
  by (simp add: fadd_def roundTiesToEven_def powr_neg_numeral)

lemma ten_sum_10: "fadd (2026619832316723 / 2251799813685248) (3602879701896397 / 36028797018963968) = 9007199254740991 / 9007199254740992"
  using dbl_eval [of "-1" "36028797018963965 / 36028797018963968"]
  by (simp add: fadd_def roundTiesToEven_def powr_neg_numeral)

lemma ten_share: "fdiv 10 100 = 3602879701896397 / 36028797018963968"
  using dbl_eval [of "-4" "1 / 10"]
  by (simp add: fdiv_def roundTiesToEven_def powr_neg_numeral)

lemma ten_rounds: "mathRound 10 = 10" "mathRound (5629499534213119 / 562949953421312) = 10"
  by (simp_all add: mathRound_def)

lemma evenShare_10: "evenShare 10 = 3602879701896397 / 36028797018963968"
  by (simp add: evenShare_def round2d_def ten_quotient ten_percent ten_rounds ten_share)

lemma claimedRemainder_10: "claimedRemainder 10 = 900719925474099 / 9007199254740992"
  by (simp add: claimedRemainder_def evenShare_10 ten_product ten_difference)

lemma remainderShare_10: "remainderShare 10 = 3602879701896397 / 36028797018963968"
  by (simp add: remainderShare_def round2d_def evenShare_10 ten_product ten_difference
      ten_remainder_percent ten_rounds ten_share)

lemma doubleSum_10:
  "doubleSum (replicate 10 (3602879701896397 / 36028797018963968))
     = 9007199254740991 / 9007199254740992"
proof -
  have r: "replicate 10 x = [x, x, x, x, x, x, x, x, x, x]" for x :: real
    by (simp add: numeral_eq_Suc)
  have z: "fadd 0 x = dbl x" for x
    by (simp add: fadd_def)
  have t: "dbl (3602879701896397 / 36028797018963968) = 3602879701896397 / 36028797018963968"
    using dbl_eval [of "-4" "3602879701896397 / 36028797018963968"]
    by (simp add: roundTiesToEven_def powr_neg_numeral)
  show ?thesis
    unfolding r doubleSum_def
    by (simp add: z t ten_sum_2 ten_sum_3 ten_sum_4 ten_sum_5 ten_sum_6 ten_sum_7 ten_sum_8
        ten_sum_9 ten_sum_10)
qed

text \<open>The plan of three installments.\<close>

lemma three_quotient: "fdiv (1) (3) = 6004799503160661 / 18014398509481984"
  using dbl_eval [of "-2" "1 / 3"]
  by (simp add: fdiv_def roundTiesToEven_def powr_neg_numeral)

lemma three_percent: "fmul (6004799503160661 / 18014398509481984) (100) = 2345624805922133 / 70368744177664"
  using dbl_eval [of 5 "150119987579016525 / 4503599627370496"]
  by (simp add: fmul_def roundTiesToEven_def powr_neg_numeral)

lemma three_share: "fdiv (33) (100) = 5944751508129055 / 18014398509481984"
  using dbl_eval [of "-2" "33 / 100"]
  by (simp add: fdiv_def roundTiesToEven_def powr_neg_numeral)

lemma three_product: "fmul (5944751508129055 / 18014398509481984) (2) = 5944751508129055 / 9007199254740992"
  using dbl_eval [of "-1" "5944751508129055 / 9007199254740992"]
  by (simp add: fmul_def roundTiesToEven_def powr_neg_numeral)

lemma three_difference: "fsub (1) (5944751508129055 / 9007199254740992) = 3062447746611937 / 9007199254740992"
  using dbl_eval [of "-2" "3062447746611937 / 9007199254740992"]
  by (simp add: fsub_def roundTiesToEven_def powr_neg_numeral)

lemma three_remainder_percent: "fmul (3062447746611937 / 9007199254740992) (100) = 34"
  using dbl_eval [of 5 "76561193665298425 / 2251799813685248"]
  by (simp add: fmul_def roundTiesToEven_def powr_neg_numeral)

lemma three_last: "fdiv (34) (100) = 6124895493223875 / 18014398509481984"
  using dbl_eval [of "-2" "17 / 50"]
  by (simp add: fdiv_def roundTiesToEven_def powr_neg_numeral)

lemma three_rounds: "mathRound (2345624805922133 / 70368744177664) = 33" "mathRound 34 = 34"
  by (simp_all add: mathRound_def)

lemma evenShare_3: "evenShare 3 = 5944751508129055 / 18014398509481984"
  by (simp add: evenShare_def round2d_def three_quotient three_percent three_rounds three_share)

lemma remainderShare_3: "remainderShare 3 = 6124895493223875 / 18014398509481984"
  by (simp add: remainderShare_def round2d_def evenShare_3 three_product three_difference
      three_remainder_percent three_rounds three_last)

subsection \<open>Risk penalty\<close>





subsection \<open>The long day of Europe/Berlin\<close>

lemma berlin_long_day:
  "dayLength europeBerlin \<lparr>getFullYear = 2024, getMonth = 9, getDate = 27\<rparr>
     = 25 * 60 * 60 * 1000"
proof -
  have n: "newDate 2024 9 28 = \<lparr>getFullYear = 2024, getMonth = 9, getDate = 28\<rparr>"
    by (simp add: newDate_id daysInMonth_def)
  have d: "dayNumber \<lparr>getFullYear = 2024, getMonth = 9, getDate = 28\<rparr>
             = dayNumber \<lparr>getFullYear = 2024, getMonth = 9, getDate = 27\<rparr> + 1"
    by (simp add: dayNumber_def)
  show ?thesis
    unfolding dayLength_def getTime_def europeBerlin_def by (simp add: n d)
qed

lemma berlin_dates:
  "nextStatementDate (ISO 2024 10 20) 27 = ISO 2024 10 27"
  "nextDueDate europeBerlin (ISO 2024 10 20) 27 27 = ISO 2024 10 27"
proof -
  show s: "nextStatementDate (ISO 2024 10 20) 27 = ISO 2024 10 27"
    by (simp add: nextStatementDate_def nextDayOfMonth_def newDate_id daysInMonth_def
        toISODate_def Let_def)
  have "dateOfTime europeBerlin \<lparr>getFullYear = 2024, getMonth = 9, getDate = 27\<rparr>
          (getTime europeBerlin \<lparr>getFullYear = 2024, getMonth = 9, getDate = 27\<rparr>
             + 24 * 60 * 60 * 1000)
        = \<lparr>getFullYear = 2024, getMonth = 9, getDate = 27\<rparr>"
    by (rule dateOfTime_long_day) (simp add: berlin_long_day)
  then show "nextDueDate europeBerlin (ISO 2024 10 20) 27 27 = ISO 2024 10 27"
    by (simp add: nextDueDate_def s newDate_id daysInMonth_def nextDayOfMonth_def
        toISODate_def Let_def)
qed

subsection \<open>Campaign match scores\<close>

lemma criterion_list:
  "criterion present matched
     (int (length (filter (\<lambda>ok. ok) xs)), int (length xs))
   = (int (length (filter (\<lambda>ok. ok) (xs @ (if present then [matched] else [])))),
      int (length (xs @ (if present then [matched] else []))))"
  by (simp add: criterion_def)

lemma criterion_nil:
  "criterion present matched (0, 0)
   = (int (length (filter (\<lambda>ok. ok) (if present then [matched] else []))),
      int (length (if present then [matched] else [])))"
  by (simp add: criterion_def)

lemma amendedCriteria_eq:
  "amendedCriteria purchase campaign =
     (if dateRange campaign \<noteq> None
      then [case dateRange campaign of
              None \<Rightarrow> False
            | Some (start, end) \<Rightarrow>
                dateLessEq (parseISODate start) (parseISODate (date purchase))
                \<and> dateLessEq (parseISODate (date purchase)) (parseISODate end)]
      else [])
     @ (if truthyS (Campaign.channel campaign) \<and> Campaign.channel campaign \<noteq> Some ''any''
        then [Campaign.channel campaign = Some (Purchase.channel purchase)] else [])
     @ (if truthyS (Campaign.category campaign) \<and> Campaign.category campaign \<noteq> Some ''general''
        then [Campaign.category campaign = Some (Purchase.category purchase)] else [])
     @ (if truthyS (brand campaign) \<and> brand campaign \<noteq> Some ''general''
        then [brand campaign = merchant purchase] else [])
     @ (if truthy (minAmount campaign)
        then [valueOf (minAmount campaign) \<le> Purchase.amount purchase] else [])"
  by (auto simp: amendedCriteria_def inDateRange_def truthyS_def truthy_def valueOf_def
      split: option.splits)

lemma counters:
  "\<exists>mc tc. (mc, tc) = (int (length (filter (\<lambda>ok. ok) (amendedCriteria purchase campaign))),
                      int (length (amendedCriteria purchase campaign)))
     \<and> score (evaluateCampaignMatch purchase campaign)
         = (if tc = 0 then 1 else if mc = tc then 1
            else if mc > 0 then max 0.3 (real_of_int mc / real_of_int tc) else 0)
     \<and> matches (evaluateCampaignMatch purchase campaign)
         = (0 < score (evaluateCampaignMatch purchase campaign))"
  unfolding amendedCriteria_eq evaluateCampaignMatch_def Let_def criterion_nil
  by (simp only: criterion_list append_assoc [symmetric]) simp


lemma score_eq:
  "score (evaluateCampaignMatch purchase campaign)
     = criteriaScore (amendedCriteria purchase campaign)"
proof -
  obtain mc tc where
    c: "(mc, tc) = (int (length (filter (\<lambda>ok. ok) (amendedCriteria purchase campaign))),
                    int (length (amendedCriteria purchase campaign)))"
    and s: "score (evaluateCampaignMatch purchase campaign)
         = (if tc = 0 then 1 else if mc = tc then 1
            else if mc > 0 then max 0.3 (real_of_int mc / real_of_int tc) else 0)"
    using counters [of purchase campaign] by blast
  from c have "mc = int (length (filter (\<lambda>ok. ok) (amendedCriteria purchase campaign)))"
    and "tc = int (length (amendedCriteria purchase campaign))" by simp_all
  then show ?thesis unfolding s criteriaScore_def Let_def by simp
qed

lemma matches_eq:
  "matches (evaluateCampaignMatch purchase campaign)
     = (0 < score (evaluateCampaignMatch purchase campaign))"
  using counters [of purchase campaign] by blast

lemma criteriaScore_range: "0 \<le> criteriaScore xs \<and> criteriaScore xs \<le> 1"
proof -
  have "length (filter (\<lambda>ok. ok) xs) \<le> length xs" by simp
  then have "real (length (filter (\<lambda>ok. ok) xs)) / real (length xs) \<le> 1"
    by (simp add: divide_le_eq_1)
  then show ?thesis by (auto simp: criteriaScore_def Let_def)
qed

lemma evalStep_totals:
  "totalMatchScore (evalStep purchase st campaign)
     = (if 0 < score (evaluateCampaignMatch purchase campaign)
        then totalMatchScore st + score (evaluateCampaignMatch purchase campaign)
        else totalMatchScore st)"
  "applicableCampaignCount (evalStep purchase st campaign)
     = (if 0 < score (evaluateCampaignMatch purchase campaign)
        then applicableCampaignCount st + 1
        else applicableCampaignCount st)"
  by (simp_all add: evalStep_def Let_def matches_eq)

lemma evalFold_totals:
  "totalMatchScore (foldl (evalStep purchase) st campaigns)
     = totalMatchScore st
       + sum_list (filter (\<lambda>s. 0 < s)
                     (map (\<lambda>c. score (evaluateCampaignMatch purchase c)) campaigns))
   \<and> applicableCampaignCount (foldl (evalStep purchase) st campaigns)
     = applicableCampaignCount st
       + int (length (filter (\<lambda>s. 0 < s)
                        (map (\<lambda>c. score (evaluateCampaignMatch purchase c)) campaigns)))"
proof (induction campaigns arbitrary: st)
  case Nil
  show ?case by simp
next
  case (Cons c cs)
  show ?case
    using Cons.IH [of "evalStep purchase st c"]
    by (simp add: evalStep_totals)
qed

lemma sum_list_le_length:
  "(\<And>x. x \<in> set xs \<Longrightarrow> x \<le> 1) \<Longrightarrow> sum_list xs \<le> real (length xs)" for xs :: "real list"
proof (induction xs)
  case Nil
  show ?case by simp
next
  case (Cons x xs)
  have "x \<le> 1" using Cons.prems by simp
  moreover have "sum_list xs \<le> real (length xs)" using Cons by simp
  ultimately show ?case by simp
qed

lemma sum_list_pos: "(\<And>x. x \<in> set xs \<Longrightarrow> 0 < x) \<Longrightarrow> 0 \<le> sum_list xs" for xs :: "real list"
proof (induction xs)
  case Nil
  show ?case by simp
next
  case (Cons x xs)
  have "0 < x" using Cons.prems by simp
  moreover have "0 \<le> sum_list xs" using Cons by simp
  ultimately show ?case by simp
qed

lemma matchScore_eq:
  "matchScore (evaluateCampaigns purchase crd campaigns)
     = averageApplicable (map (\<lambda>c. score (evaluateCampaignMatch purchase c)) campaigns)"
proof -
  define app where
    "app = filter (\<lambda>s. 0 < s) (map (\<lambda>c. score (evaluateCampaignMatch purchase c)) campaigns)"
  define st0 :: EvalState where
    "st0 = \<lparr>totalMatchScore = 0, applicableCampaignCount = 0,
            effectiveAcc = \<lparr>extraCashbackPercent = 0, extraPointRate = 0, flatDiscount = 0,
                            maxInstallmentsBoost = None, interestFreeMonths = None\<rparr>,
            hasEnrollmentRequirement = False, allEnrollmentsSatisfied = True,
            hasCodeRequirement = False, allCodesSatisfied = True\<rparr>"
  have t: "totalMatchScore (foldl (evalStep purchase) st0 campaigns) = sum_list app"
    and n: "applicableCampaignCount (foldl (evalStep purchase) st0 campaigns) = int (length app)"
    unfolding app_def using evalFold_totals [of purchase st0 campaigns]
    by (simp_all add: st0_def)
  have le1: "sum_list app \<le> real (length app)"
    unfolding app_def
    by (rule sum_list_le_length) (auto simp: score_eq criteriaScore_range)
  have ge0: "0 \<le> sum_list app"
    unfolding app_def by (rule sum_list_pos) auto
  have ms: "matchScore (evaluateCampaigns purchase crd campaigns)
              = (if 0 < int (length app)
                 then clamp01 (sum_list app / real_of_int (int (length app))) else 0)"
    unfolding evaluateCampaigns_def Let_def st0_def [symmetric] t n by simp
  have av: "averageApplicable (map (\<lambda>c. score (evaluateCampaignMatch purchase c)) campaigns)
              = (if app = [] then 0 else sum_list app / real (length app))"
    unfolding averageApplicable_def Let_def app_def [symmetric] ..
  show ?thesis
  proof (cases "app = []")
    case True
    then show ?thesis unfolding ms av by simp
  next
    case False
    then have pos: "0 < length app" by simp
    have "sum_list app / real (length app) \<le> 1"
      using le1 pos by (simp add: divide_le_eq_1)
    moreover have "0 \<le> sum_list app / real (length app)"
      using ge0 by simp
    ultimately have "clamp01 (sum_list app / real (length app))
                       = sum_list app / real (length app)"
      by (simp add: clamp01_def)
    then show ?thesis using False pos unfolding ms av by simp
  qed
qed

subsection \<open>The scenario, evaluated\<close>

lemma scenario_applicable: "isCampaignApplicable scenarioPurchase scenarioCampaign"
  by (simp add: isCampaignApplicable_def scenarioPurchase_def scenarioCampaign_def
      truthy_def truthyS_def truthyB_def valueOf_def)

lemma scenario_benefit: "campaignBenefit scenarioPurchase scenarioCard scenarioCampaign = 45"
  by (simp add: campaignBenefit_def scenarioPurchase_def scenarioCampaign_def scenarioCard_def
      truthy_def valueOf_def)

lemma scenario_base: "baseRewards scenarioPurchase scenarioCard = 52.5"
  by (simp add: baseRewards_def scenarioPurchase_def scenarioCard_def)

lemma scenario_fields:
  "Purchase.amount scenarioPurchase = 1500"
  "posFeePercent scenarioPurchase = None"
  "cashbackPercent scenarioCard = 0.025"
  "pointRate scenarioCard = 1"
  "pointValue scenarioCard = 0.01"
  "capAmount scenarioCampaign = Some 500"
  by (simp_all add: scenarioPurchase_def scenarioCard_def scenarioCampaign_def)

lemma zeroCap_applicable: "isCampaignApplicable scenarioPurchase zeroCapCampaign"
  by (simp add: isCampaignApplicable_def zeroCapCampaign_def emptyCampaign_def
      truthy_def truthyS_def truthyB_def)

lemma zeroCap_benefit: "campaignBenefit scenarioPurchase scenarioCard zeroCapCampaign = 45"
  by (simp add: campaignBenefit_def zeroCapCampaign_def emptyCampaign_def scenarioPurchase_def
      truthy_def valueOf_def)

lemma zeroCap_cap: "capAmount zeroCapCampaign = Some 0"
  by (simp add: zeroCapCampaign_def emptyCampaign_def)

lemma round2_values: "round2 (195 / 2) = 195 / 2" "round2 (105 / 2) = 105 / 2"
  by (simp_all add: round2_def mathRound_def)

lemma compatible_iff:
  "compatible (checkCompatibility purchase crd campaigns)
     = (\<not> availableLimit crd < Purchase.amount purchase)"
  by (simp add: checkCompatibility_def Let_def split: prod.splits)

lemma round2_cents: "\<exists>k::int. round2 x = real_of_int k / 100"
  by (auto simp: round2_def)

subsection \<open>Sorting\<close>

lemma set_insertSorted: "set (insertSorted cmp x ys) = insert x (set ys)"
  by (induction ys) auto

lemma set_sortFold:
  "set (foldl (\<lambda>sorted x. insertSorted cmp x sorted) acc xs) = set acc \<union> set xs"
  by (induction xs arbitrary: acc) (auto simp: set_insertSorted)

lemma set_sortBy: "set (sortBy cmp xs) = set xs"
  by (simp add: sortBy_def set_sortFold)










lemma numPlus_NaN: "numPlus x NaN = NaN"
  by (cases x) simp_all




subsection \<open>The cashflow score is a number exactly when the purchase date is a date\<close>

lemma calendarDate_iff: "calendarDate b \<longleftrightarrow> newDateUTC b \<noteq> None"
  by (cases b) (simp_all add: calendarDate_def newDateUTC_def)

lemma nextDueDate_shape:
  assumes "b \<noteq> NotADate"
  shows "\<exists>y m c. nextDueDate tz b s d = ISO y m c \<and> 1 \<le> m \<and> m \<le> 12 \<and> 1 \<le> c \<and> c \<le> 28
           \<and> parseISODate (ISO y m c) = Some \<lparr>getFullYear = y, getMonth = m - 1, getDate = c\<rparr>"
proof -
  obtain y m c where st: "nextStatementDate b s = ISO y m c"
    and p: "parseISODate (ISO y m c) = Some \<lparr>getFullYear = y, getMonth = m - 1, getDate = c\<rparr>"
    using nextDayOfMonth_shape [OF assms, of s] unfolding nextStatementDate_def by blast
  define af where "af = dateOfTime tz \<lparr>getFullYear = y, getMonth = m - 1, getDate = c\<rparr>
     (getTime tz \<lparr>getFullYear = y, getMonth = m - 1, getDate = c\<rparr> + 24 * 60 * 60 * 1000)"
  have "nextDueDate tz b s d = nextDayOfMonth (toISODate (Some af)) d"
    unfolding nextDueDate_def Let_def st p af_def by simp
  moreover have "toISODate (Some af) \<noteq> NotADate"
    by (simp add: toISODate_def)
  ultimately show ?thesis
    using nextDayOfMonth_shape [of "toISODate (Some af)" d] by simp
qed

lemma addMonths_shape:
  assumes "parseISODate b = Some \<lparr>getFullYear = y, getMonth = m, getDate = c\<rparr>"
    and c: "1 \<le> c" "c \<le> 28"
  shows "\<exists>y' m'. addMonths b i = ISO y' m' c \<and> 1 \<le> m' \<and> m' \<le> 12"
proof -
  have dim: "c \<le> daysInMonth (y + (m + i) div 12) ((m + i) mod 12)"
    using c daysInMonth_bounds(1) [of "y + (m + i) div 12" "(m + i) mod 12"] by linarith
  have "newDate y (m + i) c
          = \<lparr>getFullYear = y + (m + i) div 12, getMonth = (m + i) mod 12, getDate = c\<rparr>"
    unfolding newDate_def using c dim by (simp add: normDay_id)
  then have "addMonths b i = ISO (y + (m + i) div 12) ((m + i) mod 12 + 1) c"
    using assms c by (simp add: addMonths_def toISODate_def Let_def)
  moreover have "0 \<le> (m + i) mod 12" "(m + i) mod 12 < 12"
    by simp_all
  ultimately show ?thesis by auto
qed

lemma plan_days:
  assumes "e \<in> set (buildInstallmentPlan tz b n s d)"
  shows "\<exists>due. daysFromPurchase e = calculateDaysFromPurchase b due
           \<and> (b \<noteq> NotADate \<longrightarrow> calendarDate due)"
proof -
  let ?first = "nextDueDate tz b s d"
  have first: "b \<noteq> NotADate \<Longrightarrow> calendarDate ?first"
    using nextDueDate_shape [of b tz s d] by (auto simp: calendarDate_def)
  have later: "b \<noteq> NotADate \<Longrightarrow> calendarDate (addMonths ?first i)" for i
  proof -
    assume "b \<noteq> NotADate"
    then obtain y m c where "?first = ISO y m c" "1 \<le> c" "c \<le> 28"
      and "parseISODate (ISO y m c) = Some \<lparr>getFullYear = y, getMonth = m - 1, getDate = c\<rparr>"
      using nextDueDate_shape [of b tz s d] by blast
    then show ?thesis
      using addMonths_shape [of ?first y "m - 1" c i] by (auto simp: calendarDate_def)
  qed
  show ?thesis
  proof (cases "n \<le> 1")
    case True
    then have "daysFromPurchase e = calculateDaysFromPurchase b ?first"
      using assms by (simp add: buildInstallmentPlan_def Let_def)
    then show ?thesis using first by auto
  next
    case False
    then have "\<exists>i. daysFromPurchase e
         = calculateDaysFromPurchase b (if i = 0 then ?first else addMonths ?first i)"
      using assms by (auto simp: buildInstallmentPlan_def Let_def)
    then obtain i where
      "daysFromPurchase e
         = calculateDaysFromPurchase b (if i = 0 then ?first else addMonths ?first i)"
      by blast
    then show ?thesis using first later by (cases "i = 0") auto
  qed
qed

lemma plan_days_None:
  assumes "\<not> calendarDate b" "e \<in> set (buildInstallmentPlan tz b n s d)"
  shows "daysFromPurchase e = None"
  using plan_days [OF assms(2)] assms(1)
  by (auto simp: calculateDaysFromPurchase_def calendarDate_iff)

lemma plan_days_Some:
  assumes "calendarDate b" "e \<in> set (buildInstallmentPlan tz b n s d)"
  shows "daysFromPurchase e \<noteq> None"
proof -
  have "b \<noteq> NotADate" using assms(1) by (auto simp: calendarDate_def)
  then obtain due where "daysFromPurchase e = calculateDaysFromPurchase b due"
    and "calendarDate due"
    using plan_days [OF assms(2)] by blast
  then show ?thesis
    using assms(1) by (auto simp: calculateDaysFromPurchase_def calendarDate_iff)
qed

lemma cashflow_fold_weight:
  "snd (foldl (\<lambda>(totalDays, totalWeight) payment.
                 (numPlus totalDays
                    (numTimes (numOfDays (daysFromPurchase payment))
                       (PaymentPlan.amount payment)),
                  totalWeight + PaymentPlan.amount payment))
              (td, tw) plan)
     = tw + sum_list (map PaymentPlan.amount plan)"
  by (induction plan arbitrary: td tw) simp_all

lemma cashflow_fold_NaN:
  assumes "td = NaN \<or> plan \<noteq> []" "\<And>e. e \<in> set plan \<Longrightarrow> daysFromPurchase e = None"
  shows "fst (foldl (\<lambda>(totalDays, totalWeight) payment.
                 (numPlus totalDays
                    (numTimes (numOfDays (daysFromPurchase payment))
                       (PaymentPlan.amount payment)),
                  totalWeight + PaymentPlan.amount payment))
              (td, tw) plan) = NaN"
  using assms
proof (induction plan arbitrary: td tw)
  case Nil
  then show ?case by simp
next
  case (Cons e plan)
  have "daysFromPurchase e = None" using Cons.prems(2) by simp
  then have "numPlus td (numTimes (numOfDays (daysFromPurchase e)) (PaymentPlan.amount e)) = NaN"
    by (simp add: numOfDays_def numPlus_NaN)
  then show ?case using Cons.IH [of NaN] Cons.prems(2) by simp
qed

lemma cashflow_fold_Fin:
  assumes "\<And>e. e \<in> set plan \<Longrightarrow> daysFromPurchase e \<noteq> None"
  shows "\<exists>x. fst (foldl (\<lambda>(totalDays, totalWeight) payment.
                 (numPlus totalDays
                    (numTimes (numOfDays (daysFromPurchase payment))
                       (PaymentPlan.amount payment)),
                  totalWeight + PaymentPlan.amount payment))
              (Fin t, tw) plan) = Fin x"
  using assms
proof (induction plan arbitrary: t tw)
  case Nil
  then show ?case by simp
next
  case (Cons e plan)
  obtain n where "daysFromPurchase e = Some n" using Cons.prems [of e] by auto
  then have "numPlus (Fin t) (numTimes (numOfDays (daysFromPurchase e)) (PaymentPlan.amount e))
               = Fin (t + real_of_int n * PaymentPlan.amount e)"
    by (simp add: numOfDays_def)
  then show ?case using Cons.IH [of "t + real_of_int n * PaymentPlan.amount e"] Cons.prems
    by simp
qed

lemma cashflowScore_NaN:
  assumes "plan \<noteq> []" "\<And>e. e \<in> set plan \<Longrightarrow> daysFromPurchase e = None"
    and "0 < sum_list (map PaymentPlan.amount plan)"
  shows "cashflowScore plan = NaN"
  using assms(1,3) cashflow_fold_NaN [where td = "Fin 0" and plan = plan and tw = 0, OF _ assms(2)]
    cashflow_fold_weight [where td = "Fin 0" and tw = 0 and plan = plan]
  by (simp add: cashflowScore_def Let_def split_beta numClamp01_def)

lemma cashflowScore_Fin:
  assumes "\<And>e. e \<in> set plan \<Longrightarrow> daysFromPurchase e \<noteq> None"
  shows "\<exists>c. cashflowScore plan = Fin c"
proof -
  obtain x where "fst (foldl (\<lambda>(totalDays, totalWeight) payment.
                 (numPlus totalDays
                    (numTimes (numOfDays (daysFromPurchase payment))
                       (PaymentPlan.amount payment)),
                  totalWeight + PaymentPlan.amount payment))
              (Fin 0, 0) plan) = Fin x"
    using cashflow_fold_Fin [where plan = plan and t = 0 and tw = 0, OF assms] by blast
  then show ?thesis
    by (simp add: cashflowScore_def Let_def split_beta numClamp01_def jsdiv_def)
qed

lemma plan_cashflow:
  "\<not> calendarDate b \<Longrightarrow> cashflowScore (buildInstallmentPlan tz b n s d) = NaN"
  "calendarDate b \<Longrightarrow> \<exists>c. cashflowScore (buildInstallmentPlan tz b n s d) = Fin c"
proof -
  have ne: "buildInstallmentPlan tz b n s d \<noteq> []"
    using plan_weight_pos [of tz b n s d] by auto
  show "\<not> calendarDate b \<Longrightarrow> cashflowScore (buildInstallmentPlan tz b n s d) = NaN"
    by (rule cashflowScore_NaN [OF ne _ plan_weight_pos]) (rule plan_days_None)
  show "calendarDate b \<Longrightarrow> \<exists>c. cashflowScore (buildInstallmentPlan tz b n s d) = Fin c"
    by (rule cashflowScore_Fin) (rule plan_days_Some)
qed

subsection \<open>The ranking\<close>

lemma collect_set:
  "d \<in> set (collectCardScoreData tz purchase m cards)
   \<Longrightarrow> \<exists>c\<in>set cards. evaluateCard tz purchase m c = Some d"
  by (induction cards) (auto split: option.splits)

lemma collect_nil:
  "(\<And>c. c \<in> set cards \<Longrightarrow> evaluateCard tz purchase m c = None)
   \<Longrightarrow> collectCardScoreData tz purchase m cards = []"
  by (induction cards) auto

lemma evaluateCard_Some:
  assumes "evaluateCard tz purchase m c = Some d"
  shows "CardScoreData.cardOf d = c"
    and "compatible (checkCompatibility purchase c
                       (case m (cardId c) of None \<Rightarrow> [] | Some cs \<Rightarrow> cs))"
    and "\<exists>n. CardScoreData.cashflowScore d
           = cashflowScore (buildInstallmentPlan tz (date purchase) n (statementDay c) (dueDay c))"
  using assms by (auto simp: evaluateCard_def Let_def split: if_splits)

lemma evaluateCard_None:
  "\<not> compatible (checkCompatibility purchase c
                    (case m (cardId c) of None \<Rightarrow> [] | Some cs \<Rightarrow> cs))
   \<Longrightarrow> evaluateCard tz purchase m c = None"
  by (simp add: evaluateCard_def Let_def)

lemma evaluateCard_cashflow:
  assumes "evaluateCard tz purchase m c = Some d"
  shows "\<not> calendarDate (date purchase) \<Longrightarrow> CardScoreData.cashflowScore d = NaN"
    and "calendarDate (date purchase) \<Longrightarrow> \<exists>x. CardScoreData.cashflowScore d = Fin x"
  using evaluateCard_Some(3) [OF assms] plan_cashflow by auto

lemma campaignsFor_eq:
  "campaignsFor options c =
     (case (case campaignsByCardId options of None \<Rightarrow> Map.empty | Some m \<Rightarrow> m) (cardId c) of
        None \<Rightarrow> [] | Some cs \<Rightarrow> cs)"
  by (simp add: campaignsFor_def split: option.splits)

lemma toScoredCard_fields:
  "ScoredCard.cardOf (toScoredCard w d) = CardScoreData.cardOf d"
  "CardScoreData.cashflowScore d = NaN \<Longrightarrow> totalScore (toScoredCard w d) = NaN"
  "CardScoreData.cashflowScore d = Fin c
     \<Longrightarrow> \<exists>j::int. totalScore (toScoredCard w d) = Fin (real_of_int j / 100)"
proof -
  show "ScoredCard.cardOf (toScoredCard w d) = CardScoreData.cardOf d"
    by (simp add: toScoredCard_def Let_def)
  show "CardScoreData.cashflowScore d = NaN \<Longrightarrow> totalScore (toScoredCard w d) = NaN"
    by (simp add: toScoredCard_def Let_def numPlus_NaN)
  assume c: "CardScoreData.cashflowScore d = Fin c"
  define x where "x = (valueWeight w * CardScoreData.valueScore d
                       + c * cashflowWeight w
                       + riskWeight w * (1 - CardScoreData.riskPenalty d)
                       + usabilityWeight w * CardScoreData.usabilityScore d
                       + campaignWeight w * CardScoreData.campaignMatchScore d) * 100"
  obtain k :: int where k: "round2 x = real_of_int k / 100"
    using round2_cents by blast
  have m: "max 0 (min (real_of_int k / 100) 100) = real_of_int (max 0 (min 10000 k)) / 100"
    by (simp add: max_def min_def)
  have "totalScore (toScoredCard w d) = Fin (max 0 (min (round2 x) 100))"
    by (simp add: toScoredCard_def Let_def c x_def)
  then show "\<exists>j::int. totalScore (toScoredCard w d) = Fin (real_of_int j / 100)"
    unfolding k m by blast
qed

lemma scoreCards_eq:
  "\<exists>w f. scoreCards k tz purchase cards options
     = sortBy (compareScored k)
         (map (toScoredCard w)
            (map f (collectCardScoreData tz purchase
               (case campaignsByCardId options of None \<Rightarrow> Map.empty | Some m \<Rightarrow> m) cards)))
     \<and> (\<forall>d. CardScoreData.cardOf (f d) = CardScoreData.cardOf d
            \<and> CardScoreData.cashflowScore (f d) = CardScoreData.cashflowScore d)"
proof (cases "collectCardScoreData tz purchase
               (case campaignsByCardId options of None \<Rightarrow> Map.empty | Some m \<Rightarrow> m) cards")
  case Nil
  then have "scoreCards k tz purchase cards options = []"
    by (simp add: scoreCards_def Let_def)
  then show ?thesis using Nil by (auto simp: sortBy_def intro: exI [of _ "\<lambda>d. d"])
next
  case (Cons d ds)
  let ?mn = "mathMin (CardScoreData.netValueTL d) (map CardScoreData.netValueTL ds)"
  let ?mx = "mathMax (CardScoreData.netValueTL d) (map CardScoreData.netValueTL ds)"
  let ?f = "\<lambda>e. e\<lparr>CardScoreData.valueScore :=
                     minMaxNormalize (CardScoreData.netValueTL e) ?mn ?mx\<rparr>"
  have "scoreCards k tz purchase cards options
          = sortBy (compareScored k)
              (map (toScoredCard (mergeWeights DEFAULT_WEIGHTS (weights options)))
                 (map ?f (d # ds)))"
    using Cons by (simp add: scoreCards_def Let_def)
  moreover have "\<forall>e. CardScoreData.cardOf (?f e) = CardScoreData.cardOf e
                   \<and> CardScoreData.cashflowScore (?f e) = CardScoreData.cashflowScore e"
    by simp
  ultimately show ?thesis unfolding Cons by blast
qed

lemma scoreCards_member:
  assumes "sc \<in> set (scoreCards k tz purchase cards options)"
  shows "ScoredCard.cardOf sc \<in> set cards"
    and "compatible (checkCompatibility purchase (ScoredCard.cardOf sc)
                       (campaignsFor options (ScoredCard.cardOf sc)))"
    and "\<not> calendarDate (date purchase) \<Longrightarrow> totalScore sc = NaN"
    and "calendarDate (date purchase) \<Longrightarrow> \<exists>j::int. totalScore sc = Fin (real_of_int j / 100)"
proof -
  let ?m = "case campaignsByCardId options of None \<Rightarrow> Map.empty | Some m \<Rightarrow> m"
  obtain w f where
    eq: "scoreCards k tz purchase cards options
           = sortBy (compareScored k)
               (map (toScoredCard w) (map f (collectCardScoreData tz purchase ?m cards)))"
    and f: "\<And>d. CardScoreData.cardOf (f d) = CardScoreData.cardOf d"
    and g: "\<And>d. CardScoreData.cashflowScore (f d) = CardScoreData.cashflowScore d"
    using scoreCards_eq [of k tz purchase cards options] by blast
  from assms obtain d where d: "d \<in> set (collectCardScoreData tz purchase ?m cards)"
    and sc: "sc = toScoredCard w (f d)"
    unfolding eq set_sortBy by auto
  obtain c where c: "c \<in> set cards" "evaluateCard tz purchase ?m c = Some d"
    using collect_set [OF d] by blast
  have card: "ScoredCard.cardOf sc = c"
    using sc f [of d] evaluateCard_Some(1) [OF c(2)] by (simp add: toScoredCard_fields)
  show "ScoredCard.cardOf sc \<in> set cards" using card c(1) by simp
  show "compatible (checkCompatibility purchase (ScoredCard.cardOf sc)
                       (campaignsFor options (ScoredCard.cardOf sc)))"
    unfolding card campaignsFor_eq by (rule evaluateCard_Some(2) [OF c(2)])
  show "\<not> calendarDate (date purchase) \<Longrightarrow> totalScore sc = NaN"
    unfolding sc using evaluateCard_cashflow(1) [OF c(2)] g [of d]
    by (simp add: toScoredCard_fields)
  show "calendarDate (date purchase) \<Longrightarrow> \<exists>j::int. totalScore sc = Fin (real_of_int j / 100)"
    unfolding sc using evaluateCard_cashflow(2) [OF c(2)] g [of d] toScoredCard_fields(3)
    by metis
qed

lemma scoreCards_none:
  assumes "\<And>c. c \<in> set cards
             \<Longrightarrow> \<not> compatible (checkCompatibility purchase c (campaignsFor options c))"
  shows "scoreCards k tz purchase cards options = []"
proof -
  let ?m = "case campaignsByCardId options of None \<Rightarrow> Map.empty | Some m \<Rightarrow> m"
  have "collectCardScoreData tz purchase ?m cards = []"
    by (rule collect_nil, rule evaluateCard_None) (use assms in \<open>simp add: campaignsFor_eq\<close>)
  then show ?thesis by (simp add: scoreCards_def Let_def)
qed




subsection \<open>A ranking, evaluated\<close>

lemma days1: "calculateDaysFromPurchase (ISO 2024 8 10) (ISO 2024 9 5) = Some 26"
  by (simp add: calculateDaysFromPurchase_def newDateUTC_def newDate_id daysInMonth_def
      scenario_dayNumbers Let_def)

lemma risk_none:
  "penalty (computeRiskPenalty utc crd singlePurchase 1
              (Some \<lparr>enrollmentOk = Some True, codeOk = Some True\<rparr>)) = 0"
  if "availableLimit crd = 45000" "totalLimit crd = 50000" "statementDay crd = 15"
    "dueDay crd = 5"
  using that
  by (simp add: computeRiskPenalty_def tryDaysUntilDue_def scenario_dates scenario_days
      jsdiv_def clamp01_def singlePurchase_def scenarioPurchase_def Let_def)

lemma cashflow_single:
  "cashflowScore (buildInstallmentPlan utc (ISO 2024 8 10) 1 15 5) = Fin (26 / 60)"
  by (simp add: buildInstallmentPlan_def cashflowScore_def scenario_dates days1 numOfDays_def
      numClamp01_def jsdiv_def Let_def)

lemma evalA:
  "evaluateCard utc singlePurchase Map.empty scenarioCard =
     Some \<lparr>CardScoreData.cardOf = scenarioCard, netValueTL = 52.5, valueScore = 0,
            cashflowScore = Fin (26 / 60), riskPenalty = 0, usabilityScore = 1,
            campaignMatchScore = 0, adjustedInstallments = 1,
            resultingUtilization = Fin 0.13\<rparr>"
proof -
  have r: "penalty (computeRiskPenalty utc scenarioCard singlePurchase 1
              (Some \<lparr>enrollmentOk = Some True, codeOk = Some True\<rparr>)) = 0"
    by (rule risk_none) (simp_all add: scenarioCard_def)
  have d: "date singlePurchase = ISO 2024 8 10"
    by (simp add: singlePurchase_def scenarioPurchase_def)
  show ?thesis
    unfolding evaluateCard_def using r d
    by (simp add: checkCompatibility_def getMaxAllowedInstallments_def
        getCampaignInstallmentBoost_def evaluateCampaigns_def computeValueTL_def findMinCap_def
        cashflow_single jsdiv_def clamp01_def round2_def mathRound_def
        singlePurchase_def scenarioPurchase_def scenarioCard_def Let_def)
qed

lemma evalB:
  "evaluateCard utc singlePurchase Map.empty cardB =
     Some \<lparr>CardScoreData.cardOf = cardB, netValueTL = 52.5, valueScore = 0,
            cashflowScore = Fin (26 / 60), riskPenalty = 0, usabilityScore = 1,
            campaignMatchScore = 0, adjustedInstallments = 1,
            resultingUtilization = Fin 0.13\<rparr>"
proof -
  have r: "penalty (computeRiskPenalty utc cardB singlePurchase 1
              (Some \<lparr>enrollmentOk = Some True, codeOk = Some True\<rparr>)) = 0"
    by (rule risk_none) (simp_all add: scenarioCard_def cardB_def)
  have d: "date singlePurchase = ISO 2024 8 10"
    by (simp add: singlePurchase_def scenarioPurchase_def)
  show ?thesis
    unfolding evaluateCard_def using r d
    by (simp add: checkCompatibility_def getMaxAllowedInstallments_def
        getCampaignInstallmentBoost_def evaluateCampaigns_def computeValueTL_def findMinCap_def
        cashflow_single jsdiv_def clamp01_def round2_def mathRound_def
        singlePurchase_def scenarioPurchase_def scenarioCard_def cardB_def Let_def)
qed

lemma evalC:
  "evaluateCard utc singlePurchase Map.empty cardC =
     Some \<lparr>CardScoreData.cardOf = cardC, netValueTL = 30, valueScore = 0,
            cashflowScore = Fin (26 / 60), riskPenalty = 0, usabilityScore = 1,
            campaignMatchScore = 0, adjustedInstallments = 1,
            resultingUtilization = Fin 0.13\<rparr>"
proof -
  have r: "penalty (computeRiskPenalty utc cardC singlePurchase 1
              (Some \<lparr>enrollmentOk = Some True, codeOk = Some True\<rparr>)) = 0"
    by (rule risk_none) (simp_all add: scenarioCard_def cardC_def)
  have d: "date singlePurchase = ISO 2024 8 10"
    by (simp add: singlePurchase_def scenarioPurchase_def)
  show ?thesis
    unfolding evaluateCard_def using r d
    by (simp add: checkCompatibility_def getMaxAllowedInstallments_def
        getCampaignInstallmentBoost_def evaluateCampaigns_def computeValueTL_def findMinCap_def
        cashflow_single jsdiv_def clamp01_def round2_def mathRound_def
        singlePurchase_def scenarioPurchase_def scenarioCard_def cardC_def Let_def)
qed

lemma evalPoor: "evaluateCard utc singlePurchase Map.empty cardPoor = None"
  by (simp add: evaluateCard_def checkCompatibility_def
      singlePurchase_def scenarioPurchase_def scenarioCard_def cardPoor_def Let_def)

lemma ranking_names: "Card.name scenarioCard = ''Card A''" "Card.name cardB = ''Card B''"
  "Card.name cardC = ''Card C''"
  by (simp_all add: scenarioCard_def cardB_def cardC_def)

lemma ranking:
  "map (\<lambda>sc. (Card.name (ScoredCard.cardOf sc), totalScore sc))
       (scoreCards (\<lambda>s. s) utc singlePurchase [cardB, cardPoor, cardC, scenarioCard] noOptions)
   = [(''Card A'', Fin 80.83), (''Card B'', Fin 80.83), (''Card C'', Fin 35.83)]"
  by (simp add: scoreCards_def noOptions_def evalA evalB evalC evalPoor mergeWeights_def
      DEFAULT_WEIGHTS_def mathMin_def mathMax_def minMaxNormalize_def toScoredCard_def
      sortBy_def compareScored_def localeCompare_def clamp01_def numClamp01_def round2_def
      mathRound_def ranking_names Let_def)







section \<open>Properties\<close>

text \<open>
  C1. For every purchase, card and campaign list, \<open>checkCompatibility\<close> answers
  \<open>compatible = false\<close> exactly when the card's available limit is below the purchase
  amount, and in that case the usability score it returns is 0.
\<close>

theorem C1_compatible_iff_limit:
  "(compatible (checkCompatibility purchase crd campaigns) = False
      \<longleftrightarrow> availableLimit crd < Purchase.amount purchase)
   \<and> (compatible (checkCompatibility purchase crd campaigns) = False
      \<longrightarrow> CompatibilityResult.usabilityScore (checkCompatibility purchase crd campaigns) = 0)"
  by (simp add: checkCompatibility_def Let_def split: prod.splits)

theorem C1_witness:
  "availableLimit (scenarioCard\<lparr>availableLimit := 1000\<rparr>) < Purchase.amount scenarioPurchase
   \<and> compatible (checkCompatibility scenarioPurchase
                     (scenarioCard\<lparr>availableLimit := 1000\<rparr>) [scenarioCampaign]) = False
   \<and> CompatibilityResult.usabilityScore
        (checkCompatibility scenarioPurchase
           (scenarioCard\<lparr>availableLimit := 1000\<rparr>) [scenarioCampaign]) = 0"
  using C1_compatible_iff_limit
          [of scenarioPurchase "scenarioCard\<lparr>availableLimit := 1000\<rparr>" "[scenarioCampaign]"]
  by (simp add: scenarioPurchase_def scenarioCard_def)




text \<open>
  C5, as amended. The reward of \<open>computeValueTL\<close> is the base reward plus the campaign
  part, rounded to two decimals. When the summed benefit of the applicable campaigns is
  positive, the campaign part is the least non-zero \<open>capAmount\<close> of the applicable campaigns
  if the sum exceeds it, and the sum itself otherwise or when no applicable campaign has a
  non-zero \<open>capAmount\<close>. A sum that is not positive adds nothing.
\<close>

theorem C5_capped_campaign_reward:
  "rewardTL (computeValueTL purchase crd campaigns)
     = round2 (baseRewards purchase crd + amendedCampaignReward purchase crd campaigns)"
  by (rule computeValueTL_reward)

text \<open>
  The claim as it was stated fails for a campaign whose \<open>capAmount\<close> is 0: the campaign
  is applicable and carries a \<open>capAmount\<close>, the summed benefit 45 exceeds it, and the code
  adds the 45 in full.
\<close>

theorem C5_counterexample:
  "isCampaignApplicable scenarioPurchase zeroCapCampaign
   \<and> capAmount zeroCapCampaign = Some 0
   \<and> summedCampaignBenefit scenarioPurchase scenarioCard [zeroCapCampaign] = 45
   \<and> rewardTL (computeValueTL scenarioPurchase scenarioCard [zeroCapCampaign]) = 97.5
   \<and> round2 (baseRewards scenarioPurchase scenarioCard
              + claimedCampaignReward scenarioPurchase scenarioCard [zeroCapCampaign]) = 52.5
   \<and> rewardTL (computeValueTL scenarioPurchase scenarioCard [zeroCapCampaign])
       \<noteq> round2 (baseRewards scenarioPurchase scenarioCard
              + claimedCampaignReward scenarioPurchase scenarioCard [zeroCapCampaign])"
proof -
  have s: "summedCampaignBenefit scenarioPurchase scenarioCard [zeroCapCampaign] = 45"
    by (simp add: summedCampaignBenefit_def zeroCap_applicable zeroCap_benefit)
  have c: "claimedCampaignReward scenarioPurchase scenarioCard [zeroCapCampaign] = 0"
    by (simp add: claimedCampaignReward_def s zeroCap_applicable zeroCap_cap
        List.map_filter_simps)
  have a: "amendedCampaignReward scenarioPurchase scenarioCard [zeroCapCampaign] = 45"
    by (simp add: amendedCampaignReward_def s zeroCap_applicable zeroCap_cap
        List.map_filter_simps)
  have r: "rewardTL (computeValueTL scenarioPurchase scenarioCard [zeroCapCampaign]) = 97.5"
    by (simp add: computeValueTL_reward a scenario_base round2_values)
  show ?thesis by (simp add: zeroCap_applicable zeroCap_cap s r c scenario_base round2_values)
qed

theorem C5_witness:
  "amendedCampaignReward (scenarioPurchase\<lparr>Purchase.amount := 20000\<rparr>) scenarioCard
      [scenarioCampaign] = 500
   \<and> rewardTL (computeValueTL (scenarioPurchase\<lparr>Purchase.amount := 20000\<rparr>) scenarioCard
                 [scenarioCampaign]) = 1200"
proof -
  let ?p = "scenarioPurchase\<lparr>Purchase.amount := 20000\<rparr>"
  have app: "isCampaignApplicable ?p scenarioCampaign"
    by (simp add: isCampaignApplicable_def scenarioPurchase_def scenarioCampaign_def
        truthy_def truthyS_def truthyB_def valueOf_def)
  have ben: "campaignBenefit ?p scenarioCard scenarioCampaign = 600"
    by (simp add: campaignBenefit_def scenarioPurchase_def scenarioCampaign_def
        scenarioCard_def truthy_def valueOf_def)
  have cap: "capAmount scenarioCampaign = Some 500"
    by (simp add: scenarioCampaign_def)
  have a: "amendedCampaignReward ?p scenarioCard [scenarioCampaign] = 500"
    by (simp add: amendedCampaignReward_def summedCampaignBenefit_def app ben cap
        List.map_filter_simps)
  have b: "baseRewards ?p scenarioCard = 700"
    by (simp add: baseRewards_def scenarioPurchase_def scenarioCard_def)
  have r: "round2 1200 = 1200"
    by (simp add: round2_def mathRound_def)
  show ?thesis
    using C5_capped_campaign_reward [of ?p scenarioCard "[scenarioCampaign]"]
    by (simp add: a b r)
qed

text \<open>
  C6. For a purchase whose amount does not exceed the available limit, the installment
  ceiling of \<open>checkCompatibility\<close> is the card-derived cap raised to the largest
  \<open>maxInstallments\<close> found over all supplied campaigns, whether or not they apply to the
  purchase. When the requested installment count exceeds the ceiling, the adjusted
  installments are \<open>max(1, ceiling)\<close> and the usability score is 0.4. In particular a card
  with \<open>installmentSupport\<close> 0 or \<open>false\<close>, a request for 5 installments and no campaign
  boost give 1 adjusted installment and a usability score of 0.4.
\<close>

theorem C6_installment_ceiling:
  assumes "Purchase.amount purchase \<le> availableLimit crd"
  shows "getMaxAllowedInstallments crd campaigns
           = max (cardInstallmentCap (installmentSupport crd)) (campaignInstallmentMax campaigns)
         \<and> (installmentCount purchase > getMaxAllowedInstallments crd campaigns \<longrightarrow>
              CompatibilityResult.adjustedInstallments
                  (checkCompatibility purchase crd campaigns)
                = max 1 (getMaxAllowedInstallments crd campaigns)
              \<and> CompatibilityResult.usabilityScore
                  (checkCompatibility purchase crd campaigns) = 0.4)
         \<and> ((installmentSupport crd = Num 0 \<or> installmentSupport crd = Flag False)
              \<and> installmentCount purchase = 5 \<and> campaignInstallmentMax campaigns = 0 \<longrightarrow>
              CompatibilityResult.adjustedInstallments
                  (checkCompatibility purchase crd campaigns) = 1
              \<and> CompatibilityResult.usabilityScore
                  (checkCompatibility purchase crd campaigns) = 0.4)"
proof (intro conjI)
  show "getMaxAllowedInstallments crd campaigns
          = max (cardInstallmentCap (installmentSupport crd)) (campaignInstallmentMax campaigns)"
    by (auto simp: getMaxAllowedInstallments_def Let_def boost_eq cardInstallmentCap_def
        split: InstallmentSupport.splits)
  show "installmentCount purchase > getMaxAllowedInstallments crd campaigns \<longrightarrow>
          CompatibilityResult.adjustedInstallments (checkCompatibility purchase crd campaigns)
            = max 1 (getMaxAllowedInstallments crd campaigns)
          \<and> CompatibilityResult.usabilityScore
              (checkCompatibility purchase crd campaigns) = 0.4"
    using assms by (auto simp: checkCompatibility_def Let_def split: prod.splits)
  show "(installmentSupport crd = Num 0 \<or> installmentSupport crd = Flag False)
          \<and> installmentCount purchase = 5 \<and> campaignInstallmentMax campaigns = 0 \<longrightarrow>
          CompatibilityResult.adjustedInstallments (checkCompatibility purchase crd campaigns) = 1
          \<and> CompatibilityResult.usabilityScore
              (checkCompatibility purchase crd campaigns) = 0.4"
    using assms
    by (auto simp: checkCompatibility_def getMaxAllowedInstallments_def Let_def boost_eq
        split: prod.splits)
qed

theorem C6_witness:
  "Purchase.amount (scenarioPurchase\<lparr>installmentCount := 5\<rparr>)
     \<le> availableLimit (scenarioCard\<lparr>installmentSupport := Flag False\<rparr>)
   \<and> getMaxAllowedInstallments (scenarioCard\<lparr>installmentSupport := Flag False\<rparr>)
        [scenarioCampaign] = 0
   \<and> CompatibilityResult.adjustedInstallments
        (checkCompatibility (scenarioPurchase\<lparr>installmentCount := 5\<rparr>)
           (scenarioCard\<lparr>installmentSupport := Flag False\<rparr>) [scenarioCampaign]) = 1
   \<and> CompatibilityResult.usabilityScore
        (checkCompatibility (scenarioPurchase\<lparr>installmentCount := 5\<rparr>)
           (scenarioCard\<lparr>installmentSupport := Flag False\<rparr>) [scenarioCampaign]) = 0.4"
proof -
  have le: "Purchase.amount (scenarioPurchase\<lparr>installmentCount := 5\<rparr>)
              \<le> availableLimit (scenarioCard\<lparr>installmentSupport := Flag False\<rparr>)"
    by (simp add: scenarioPurchase_def scenarioCard_def)
  have m: "campaignInstallmentMax [scenarioCampaign] = 0"
    by (simp add: campaignInstallmentMax_def scenarioCampaign_def List.map_filter_simps)
  show ?thesis
    using C6_installment_ceiling [OF le, of "[scenarioCampaign]"] le m
    by (simp add: scenarioPurchase_def scenarioCard_def cardInstallmentCap_def)
qed

text \<open>
  C10. In the documented scenario \<open>checkCompatibility\<close> answers compatible with 3 adjusted
  installments, and \<open>computeValueTL\<close> returns the net value 97.5: base cashback 37.5,
  base points worth 15 and the campaign's extra cashback 45, which is below the cap of 500.
\<close>

theorem C10_scenario:
  "compatible (checkCompatibility scenarioPurchase scenarioCard [scenarioCampaign]) = True
   \<and> CompatibilityResult.adjustedInstallments
        (checkCompatibility scenarioPurchase scenarioCard [scenarioCampaign]) = 3
   \<and> Purchase.amount scenarioPurchase * cashbackPercent scenarioCard = 37.5
   \<and> Purchase.amount scenarioPurchase * pointRate scenarioCard * pointValue scenarioCard = 15
   \<and> isCampaignApplicable scenarioPurchase scenarioCampaign
   \<and> campaignBenefit scenarioPurchase scenarioCard scenarioCampaign = 45
   \<and> findMinCap [scenarioCampaign] = Some 500
   \<and> ValueResult.netValueTL
        (computeValueTL scenarioPurchase scenarioCard [scenarioCampaign]) = 97.5"
proof (intro conjI)
  show "compatible (checkCompatibility scenarioPurchase scenarioCard [scenarioCampaign]) = True"
    by (simp add: checkCompatibility_def scenarioPurchase_def scenarioCard_def Let_def
        split: prod.splits)
  show "CompatibilityResult.adjustedInstallments
          (checkCompatibility scenarioPurchase scenarioCard [scenarioCampaign]) = 3"
    by (simp add: checkCompatibility_def scenarioPurchase_def scenarioCard_def
        scenarioCampaign_def getMaxAllowedInstallments_def getCampaignInstallmentBoost_def
        jsdiv_def Let_def)
  show "Purchase.amount scenarioPurchase * cashbackPercent scenarioCard = 37.5"
    by (simp add: scenarioPurchase_def scenarioCard_def)
  show "Purchase.amount scenarioPurchase * pointRate scenarioCard * pointValue scenarioCard = 15"
    by (simp add: scenarioPurchase_def scenarioCard_def)
  show "isCampaignApplicable scenarioPurchase scenarioCampaign"
    by (rule scenario_applicable)
  show "campaignBenefit scenarioPurchase scenarioCard scenarioCampaign = 45"
    by (rule scenario_benefit)
  show "findMinCap [scenarioCampaign] = Some 500"
    by (simp add: findMinCap_def scenarioCampaign_def truthy_def valueOf_def)
  show "ValueResult.netValueTL
          (computeValueTL scenarioPurchase scenarioCard [scenarioCampaign]) = 97.5"
    by (simp add: computeValueTL_def scenario_applicable scenario_benefit findMinCap_def
        scenario_fields truthy_def valueOf_def round2_def mathRound_def Let_def)
qed

text \<open>
  C9. The documentation of \<open>nextDueDate\<close> promises the first occurrence of the due day
  after the statement closes: a due date at least one day after the statement date. The
  code takes the day after the statement date to be the local date 24 hours after local
  midnight of the statement date. On a day of 25 hours that is the statement date
  itself: in the zone Europe/Berlin, for a purchase on 2024-10-20 with statement day 27
  and due day 27, the statement date and the due date are both 2024-10-27.
\<close>

theorem C9_due_date_on_statement_date:
  "dayLength europeBerlin \<lparr>getFullYear = 2024, getMonth = 9, getDate = 27\<rparr>
     = 25 * 60 * 60 * 1000
   \<and> nextStatementDate (ISO 2024 10 20) 27 = ISO 2024 10 27
   \<and> nextDueDate europeBerlin (ISO 2024 10 20) 27 27 = ISO 2024 10 27"
  by (simp add: berlin_long_day berlin_dates)

text \<open>
  C8, as amended. For every purchase date, statement day, due day and installment count
  \<open>n \<ge> 1\<close>, the plan built by \<open>buildInstallmentPlan\<close> has \<open>n\<close> entries. For \<open>n = 1\<close> the single
  amount is 1. For \<open>n > 1\<close> each of the first \<open>n - 1\<close> amounts is \<open>round2(1/n)\<close> and the last
  amount is \<open>round2(1 - round2(1/n) \<times> (n - 1))\<close>, all computed in double arithmetic. The
  amounts sum to 1 up to the rounding of doubles: their exact sum differs from 1 by at
  most \<open>3 / 2 ^ 53\<close>.
\<close>

theorem C8_plan_amounts:
  assumes "1 \<le> n"
  shows "length (buildInstallmentPlan tz p n s d) = nat n
         \<and> (\<forall>i. i < nat n - 1 \<longrightarrow>
               PaymentPlan.amount (buildInstallmentPlan tz p n s d ! i) = evenShare n)
         \<and> PaymentPlan.amount (last (buildInstallmentPlan tz p n s d))
             = (if n = 1 then 1 else remainderShare n)
         \<and> \<bar>sum_list (map PaymentPlan.amount (buildInstallmentPlan tz p n s d)) - 1\<bar>
             \<le> 3 / 2 ^ 53"
proof (cases "n = 1")
  case True
  then show ?thesis by (simp add: buildInstallmentPlan_def Let_def)
next
  case False
  with assms have n: "1 < n" by simp
  let ?plan = "buildInstallmentPlan tz p n s d"
  note am = plan_amounts [OF n, of tz p s d]
  have len: "length ?plan = nat n"
    using assms by (rule plan_length)
  have ne: "?plan \<noteq> []" using len n by auto
  have sum: "\<bar>sum_list (map PaymentPlan.amount ?plan) - 1\<bar> \<le> 3 / 2 ^ 53"
    unfolding plan_sum [OF n] using n by (intro shares_sum) simp
  have nth: "\<forall>i. i < nat n - 1 \<longrightarrow> PaymentPlan.amount (?plan ! i) = evenShare n"
  proof (intro allI impI)
    fix i assume i: "i < nat n - 1"
    then have "i < length ?plan" using len by simp
    then have "PaymentPlan.amount (?plan ! i) = map PaymentPlan.amount ?plan ! i"
      by simp
    also have "\<dots> = evenShare n"
      unfolding am using i n by (simp add: nth_append nat_diff_distrib)
    finally show "PaymentPlan.amount (?plan ! i) = evenShare n" .
  qed
  have "PaymentPlan.amount (last ?plan) = last (map PaymentPlan.amount ?plan)"
    using ne by (simp add: last_map)
  also have "\<dots> = remainderShare n"
    unfolding am by simp
  finally show ?thesis using False sum len nth by simp
qed

text \<open>
  The claim as it was stated fails for ten installments. Each of the ten amounts is the
  double 0.1, whose exact value is above one tenth: the exact sum of the amounts is above
  1, and their sum in double arithmetic is the double below 1, 0.9999999999999999. The
  last amount is not \<open>1 - round2(1/n) \<times> (n - 1)\<close>, which is 0.09999999999999998.
\<close>

theorem C8_counterexample:
  "map PaymentPlan.amount (buildInstallmentPlan utc (ISO 2024 8 10) 10 15 5)
     = replicate 10 (3602879701896397 / 36028797018963968)
   \<and> sum_list (map PaymentPlan.amount (buildInstallmentPlan utc (ISO 2024 8 10) 10 15 5))
       = 18014398509481985 / 18014398509481984
   \<and> sum_list (map PaymentPlan.amount (buildInstallmentPlan utc (ISO 2024 8 10) 10 15 5)) \<noteq> 1
   \<and> doubleSum (map PaymentPlan.amount (buildInstallmentPlan utc (ISO 2024 8 10) 10 15 5))
       = 9007199254740991 / 9007199254740992
   \<and> doubleSum (map PaymentPlan.amount (buildInstallmentPlan utc (ISO 2024 8 10) 10 15 5)) \<noteq> 1
   \<and> claimedRemainder 10 = 900719925474099 / 9007199254740992
   \<and> PaymentPlan.amount (last (buildInstallmentPlan utc (ISO 2024 8 10) 10 15 5))
       \<noteq> claimedRemainder 10"
proof -
  let ?plan = "buildInstallmentPlan utc (ISO 2024 8 10) 10 15 5"
  have r10: "replicate 10 x = replicate 9 x @ [x]" for x :: real
    by (simp add: numeral_eq_Suc)
  have am: "map PaymentPlan.amount ?plan = replicate 10 (3602879701896397 / 36028797018963968)"
    unfolding r10 using plan_amounts [of 10 utc "ISO 2024 8 10" 15 5]
    by (simp add: evenShare_10 remainderShare_10 del: replicate_append_same)
  have ne: "?plan \<noteq> []"
    using plan_length [of 10 utc "ISO 2024 8 10" 15 5] by auto
  have "PaymentPlan.amount (last ?plan) = last (map PaymentPlan.amount ?plan)"
    using ne by (simp add: last_map)
  then have l: "PaymentPlan.amount (last ?plan) = 3602879701896397 / 36028797018963968"
    unfolding am by simp
  have s: "sum_list (map PaymentPlan.amount ?plan) = 18014398509481985 / 18014398509481984"
    unfolding am by (simp add: sum_list_replicate)
  have f: "doubleSum (map PaymentPlan.amount ?plan) = 9007199254740991 / 9007199254740992"
    unfolding am by (rule doubleSum_10)
  show ?thesis
    unfolding s f l claimedRemainder_10 using am by simp
qed

theorem C8_witness:
  "(1::int) \<le> 3
   \<and> length (buildInstallmentPlan utc (ISO 2024 8 10) 3 15 5) = 3
   \<and> PaymentPlan.amount (buildInstallmentPlan utc (ISO 2024 8 10) 3 15 5 ! 0)
       = 5944751508129055 / 18014398509481984
   \<and> PaymentPlan.amount (buildInstallmentPlan utc (ISO 2024 8 10) 3 15 5 ! 1)
       = 5944751508129055 / 18014398509481984
   \<and> PaymentPlan.amount (last (buildInstallmentPlan utc (ISO 2024 8 10) 3 15 5))
       = 6124895493223875 / 18014398509481984
   \<and> \<bar>sum_list (map PaymentPlan.amount (buildInstallmentPlan utc (ISO 2024 8 10) 3 15 5)) - 1\<bar>
       \<le> 3 / 2 ^ 53"
  using C8_plan_amounts [of 3 utc "ISO 2024 8 10" 15 5]
  by (simp add: evenShare_3 remainderShare_3)

text \<open>
  C7, as amended. A criterion of a campaign is present when its field is set to a value
  that is not empty and not 0 (and, for channel, category and brand, not the wildcard).
  The match score of a campaign is 1 when no criterion is present or all present criteria
  match, \<open>max(0.3, matched/total)\<close> when some but not all match, and 0 when none matches; the
  campaign is applicable exactly when the score is positive. The match score reported by
  \<open>evaluateCampaigns\<close> is the average of the scores of the applicable campaigns, and 0 when
  no campaign is applicable.
\<close>

theorem C7_match_scores:
  "score (evaluateCampaignMatch purchase campaign)
     = criteriaScore (amendedCriteria purchase campaign)
   \<and> matches (evaluateCampaignMatch purchase campaign)
     = (0 < criteriaScore (amendedCriteria purchase campaign))
   \<and> matchScore (evaluateCampaigns purchase crd campaigns)
     = averageApplicable (map (\<lambda>c. criteriaScore (amendedCriteria purchase c)) campaigns)"
  using matchScore_eq [of purchase crd campaigns]
  by (simp add: score_eq matches_eq)

theorem C7_witness:
  "criteriaScore (amendedCriteria scenarioPurchase scenarioCampaign) = 1
   \<and> criteriaScore (amendedCriteria scenarioPurchase
         (scenarioCampaign\<lparr>Campaign.channel := Some ''offline''\<rparr>)) = 2 / 3
   \<and> criteriaScore (amendedCriteria scenarioPurchase
         (onlineMinZero\<lparr>Campaign.channel := Some ''offline''\<rparr>)) = 0
   \<and> score (evaluateCampaignMatch scenarioPurchase scenarioCampaign) = 1
   \<and> matchScore (evaluateCampaigns scenarioPurchase scenarioCard
         [scenarioCampaign,
          scenarioCampaign\<lparr>Campaign.channel := Some ''offline''\<rparr>,
          onlineMinZero\<lparr>Campaign.channel := Some ''offline''\<rparr>]) = 5 / 6"
proof -
  have a: "amendedCriteria scenarioPurchase scenarioCampaign = [True, True]"
    by (simp add: amendedCriteria_def scenarioPurchase_def scenarioCampaign_def)
  have b: "amendedCriteria scenarioPurchase
             (scenarioCampaign\<lparr>Campaign.channel := Some ''offline''\<rparr>) = [False, True, True]"
    by (simp add: amendedCriteria_def scenarioPurchase_def scenarioCampaign_def)
  have c: "amendedCriteria scenarioPurchase
             (onlineMinZero\<lparr>Campaign.channel := Some ''offline''\<rparr>) = [False]"
    by (simp add: amendedCriteria_def scenarioPurchase_def onlineMinZero_def emptyCampaign_def)
  show ?thesis
    using C7_match_scores [of scenarioPurchase scenarioCampaign scenarioCard
            "[scenarioCampaign,
              scenarioCampaign\<lparr>Campaign.channel := Some ''offline''\<rparr>,
              onlineMinZero\<lparr>Campaign.channel := Some ''offline''\<rparr>]"]
    by (simp add: a b c criteriaScore_def averageApplicable_def)
qed

text \<open>
  The claim as it was stated fails for a campaign with the channel "online" and a
  \<open>minAmount\<close> of 0 against an offline purchase: of the two criteria the campaign carries
  the minimum amount is met, which would give the score 0.5, and the code gives 0.
\<close>

theorem C7_counterexample:
  "score (evaluateCampaignMatch offlinePurchase onlineMinZero) = 0
   \<and> claimedCriteria offlinePurchase onlineMinZero = [False, True]
   \<and> criteriaScore (claimedCriteria offlinePurchase onlineMinZero) = 0.5
   \<and> score (evaluateCampaignMatch offlinePurchase onlineMinZero)
       \<noteq> criteriaScore (claimedCriteria offlinePurchase onlineMinZero)"
proof -
  have a: "amendedCriteria offlinePurchase onlineMinZero = [False]"
    by (simp add: amendedCriteria_def offlinePurchase_def onlineMinZero_def emptyCampaign_def
        scenarioPurchase_def)
  have c: "claimedCriteria offlinePurchase onlineMinZero = [False, True]"
    by (simp add: claimedCriteria_def offlinePurchase_def onlineMinZero_def emptyCampaign_def
        scenarioPurchase_def)
  show ?thesis by (simp add: score_eq a c criteriaScore_def)
qed


text \<open>
  C2. Every entry of the list returned by \<open>scoreCards\<close> is one of the given cards, its
  compatibility check answered compatible, and its available limit is at least the
  purchase amount. When no card passes the compatibility check the result is the empty
  list, an ordinary value.
\<close>

theorem C2_only_compatible_cards:
  "(\<forall>sc\<in>set (scoreCards k tz purchase cards options).
       ScoredCard.cardOf sc \<in> set cards
       \<and> compatible (checkCompatibility purchase (ScoredCard.cardOf sc)
                        (campaignsFor options (ScoredCard.cardOf sc)))
       \<and> Purchase.amount purchase \<le> availableLimit (ScoredCard.cardOf sc))
   \<and> ((\<forall>c\<in>set cards. \<not> compatible (checkCompatibility purchase c (campaignsFor options c)))
        \<longrightarrow> scoreCards k tz purchase cards options = [])"
proof (intro conjI ballI impI)
  fix sc
  assume sc: "sc \<in> set (scoreCards k tz purchase cards options)"
  show "ScoredCard.cardOf sc \<in> set cards"
    by (rule scoreCards_member(1) [OF sc])
  show c: "compatible (checkCompatibility purchase (ScoredCard.cardOf sc)
                         (campaignsFor options (ScoredCard.cardOf sc)))"
    by (rule scoreCards_member(2) [OF sc])
  show "Purchase.amount purchase \<le> availableLimit (ScoredCard.cardOf sc)"
    using c by (simp add: compatible_iff)
next
  assume "\<forall>c\<in>set cards. \<not> compatible (checkCompatibility purchase c (campaignsFor options c))"
  then show "scoreCards k tz purchase cards options = []"
    by (intro scoreCards_none) simp
qed

theorem C2_witness:
  "map (\<lambda>sc. Card.name (ScoredCard.cardOf sc))
       (scoreCards (\<lambda>s. s) utc singlePurchase [cardB, cardPoor, cardC, scenarioCard] noOptions)
     = [''Card A'', ''Card B'', ''Card C'']
   \<and> availableLimit cardPoor < Purchase.amount singlePurchase
   \<and> scoreCards (\<lambda>s. s) utc singlePurchase [cardPoor] noOptions = []"
proof -
  have names: "map (\<lambda>sc. Card.name (ScoredCard.cardOf sc))
       (scoreCards (\<lambda>s. s) utc singlePurchase [cardB, cardPoor, cardC, scenarioCard] noOptions)
     = [''Card A'', ''Card B'', ''Card C'']"
    using arg_cong [OF ranking, of "map fst"] by (simp add: o_def)
  have poor: "availableLimit cardPoor < Purchase.amount singlePurchase"
    by (simp add: cardPoor_def singlePurchase_def scenarioPurchase_def scenarioCard_def)
  then have "\<not> compatible (checkCompatibility singlePurchase cardPoor
                              (campaignsFor noOptions cardPoor))"
    by (simp add: compatible_iff)
  then show ?thesis
    using C2_only_compatible_cards [of "\<lambda>s. s" utc singlePurchase "[cardPoor]" noOptions]
      names poor
    by simp
qed



end
